theory Spec2Isabelle
  imports Main "HOL-Library.Word"
begin

section \<open>The C library as common.c uses it\<close>

text \<open>
  Bytes are \<^typ>\<open>char\<close>, buffers and C strings are \<^typ>\<open>string\<close>. Sizes are natural
  numbers: every buffer of the program fits in memory, so no \<open>size_t\<close> computation wraps.
\<close>

definition NUL :: char where
  "NUL = CHR 0x00"

definition LF :: char where
  "LF = CHR 0x0A"

text \<open>The C string that starts at the beginning of a byte sequence: the bytes before the first NUL.\<close>

definition c_str :: "string \<Rightarrow> string" where
  "c_str bytes = takeWhile (\<lambda>c. c \<noteq> NUL) bytes"

text \<open>\<open>memchr(s, c, n)\<close>: the offset of the first \<open>c\<close> among the first \<open>n\<close> bytes, if any.\<close>

definition memchr :: "string \<Rightarrow> char \<Rightarrow> nat \<Rightarrow> nat option" where
  "memchr bytes c n =
     (let k = length (takeWhile (\<lambda>x. x \<noteq> c) (take n bytes))
      in if k < length (take n bytes) then Some k else None)"

text \<open>\<open>isspace\<close> and \<open>isdigit\<close> in the C locale.\<close>

definition isspace :: "char \<Rightarrow> bool" where
  "isspace c = (c \<in> {CHR '' '', CHR 0x09, CHR 0x0A, CHR 0x0B, CHR 0x0C, CHR 0x0D})"

definition isdigit :: "char \<Rightarrow> bool" where
  "isdigit c = ((48::nat) \<le> of_char c \<and> of_char c \<le> (57::nat))"

definition digit_val :: "char \<Rightarrow> nat" where
  "digit_val c = of_char c - 48"

definition dec_val :: "string \<Rightarrow> nat" where
  "dec_val ds = foldl (\<lambda>acc c. acc * 10 + digit_val c) 0 ds"

definition UINTMAX_MAX :: nat where
  "UINTMAX_MAX = 2 ^ 64 - 1"

definition UINT32_MAX :: nat where
  "UINT32_MAX = 2 ^ 32 - 1"

definition UINT8_MAX :: nat where
  "UINT8_MAX = 255"

text \<open>
  \<open>strtoumax(nptr, &endptr, 10)\<close> on a C string, with a 64-bit \<open>uintmax_t\<close>: leading white
  space is skipped, one sign is accepted, then the longest run of decimal digits is
  converted. Without a digit nothing is converted: the result is 0 and \<open>endptr\<close> is
  \<open>nptr\<close>. A value past \<open>UINTMAX_MAX\<close> is returned as \<open>UINTMAX_MAX\<close>; under a minus sign
  the value is negated in \<open>uintmax_t\<close>. The second component is the text \<open>endptr\<close> points to.
\<close>

definition strtoumax :: "string \<Rightarrow> nat \<times> string" where
  "strtoumax nptr =
     (let s = dropWhile isspace nptr;
          neg = (s \<noteq> [] \<and> hd s = CHR ''-'');
          t = (if s \<noteq> [] \<and> (hd s = CHR ''-'' \<or> hd s = CHR ''+'') then tl s else s);
          ds = takeWhile isdigit t;
          endptr = dropWhile isdigit t;
          v = dec_val ds
      in if ds = [] then (0, nptr)
         else if v > UINTMAX_MAX then (UINTMAX_MAX, endptr)
         else if neg then ((2 ^ 64 - v) mod 2 ^ 64, endptr)
         else (v, endptr))"

text \<open>The values of \<open>errno.h\<close> and \<open>sys/socket.h\<close> on Linux.\<close>

definition ENOENT :: int where "ENOENT = 2"
definition E2BIG :: int where "E2BIG = 7"
definition EAGAIN :: int where "EAGAIN = 11"
definition EWOULDBLOCK :: int where "EWOULDBLOCK = 11"
definition EINVAL :: int where "EINVAL = 22"
definition EPROTONOSUPPORT :: int where "EPROTONOSUPPORT = 93"

definition AF_INET :: nat where "AF_INET = 2"
definition AF_INET6 :: nat where "AF_INET6 = 10"

section \<open>The declarations of common.h\<close>

text \<open>
  common.c takes its enumeration of keys, the table of key names and its size limits from
  common.h, and \<open>inet_pton\<close> from the C library. They are parameters of the model: a key is
  the number of its enumerator, \<open>WG_DYNAMIC_KEY\<close> is the table of names indexed by key,
  and \<open>inet_pton d family str\<close> is the address written on success (return value 1) and
  \<open>None\<close> otherwise.
\<close>

record decls =
  WG_DYNAMIC_KEY :: "string list"
  WGKEY_UNKNOWN :: nat
  WGKEY_INCOMPLETE :: nat
  WGKEY_ENDCMD :: nat
  WGKEY_IPV4 :: nat
  WGKEY_IPV6 :: nat
  WGKEY_LEASESTART :: nat
  WGKEY_LEASETIME :: nat
  WGKEY_ERRNO :: nat
  WGKEY_ERRMSG :: nat
  MAX_LINESIZE :: nat
  RECV_BUFSIZE :: nat
  sizeof_wg_combined_ip :: nat
  inet_pton :: "nat \<Rightarrow> string \<Rightarrow> 8 word list option"

text \<open>
  The enumerators that \<open>parse_value\<close> switches on are distinct from each other (the switch
  compiles) and from the marker of an incomplete line.
\<close>

definition decls_ok :: "decls \<Rightarrow> bool" where
  "decls_ok d =
     distinct [WGKEY_INCOMPLETE d, WGKEY_IPV4 d, WGKEY_IPV6 d, WGKEY_LEASESTART d,
               WGKEY_LEASETIME d, WGKEY_ERRNO d, WGKEY_ERRMSG d]"

section \<open>Attributes and requests\<close>

text \<open>
  \<open>struct wg_combined_ip\<close>: the address bytes that \<open>memset\<close> or \<open>inet_pton\<close> wrote at the
  start of the structure (4 for \<open>AF_INET\<close>, 16 otherwise), the family and the prefix length.
\<close>

record wg_combined_ip =
  family :: nat
  ip :: "8 word list"
  cidr :: "8 word"

text \<open>
  The flexible array \<open>value\<close> of an attribute holds the first \<open>len\<close> bytes of the union
  \<open>data\<close> of \<open>parse_value\<close>, or the raw bytes of an incomplete line.
\<close>

datatype attr_value =
    Ip wg_combined_ip
  | Uint32 "32 word"
  | Errmsg string
  | Fragment string

record wg_dynamic_attr =
  key :: nat
  len :: nat
  val :: attr_value

text \<open>
  The bytes \<open>memcpy\<close> reads from an attribute. Only the marker of an incomplete line is read
  this way; the object representation of the typed values is not modelled.
\<close>

fun attr_bytes :: "attr_value \<Rightarrow> string" where
  "attr_bytes (Fragment bytes) = bytes"
| "attr_bytes _ = []"

text \<open>
  \<open>struct wg_dynamic_request\<close>. The singly linked list from \<open>first\<close> to \<open>last\<close> is the list
  \<open>attrs\<close>, \<open>last\<close> being its last element. \<open>buf\<close> is the block allocated for the pending
  write (\<open>None\<close> for a null pointer), of which the first \<open>buflen\<close> bytes are pending.
\<close>

record wg_dynamic_request =
  cmd :: nat
  version :: "32 word"
  fd :: int
  buf :: "string option"
  buflen :: nat
  attrs :: "wg_dynamic_attr list"

text \<open>
  How a call ends: it returns, the process is aborted by \<open>BUG()\<close>, or it writes past the end
  of a buffer. \<open>malloc\<close> is taken to succeed.
\<close>

datatype 'a outcome = Returns 'a | Aborted | Out_of_bounds

section \<open>The value decoder\<close>

definition parse_ip_cidr :: "decls \<Rightarrow> wg_combined_ip \<Rightarrow> string \<Rightarrow> wg_combined_ip option" where
  "parse_ip_cidr d ipv str =
     (if str = [] then
        Some (ipv\<lparr>ip := replicate (if family ipv = AF_INET then 4 else 16) 0, cidr := 0\<rparr>)
      else
        case memchr str (CHR ''/'') (length str) of
          None \<Rightarrow> None
        | Some sep \<Rightarrow>
            (case inet_pton d (family ipv) (take sep str) of
               None \<Rightarrow> None
             | Some a \<Rightarrow>
                 (case strtoumax (drop (sep + 1) str) of
                    (res, endptr) \<Rightarrow>
                      if res > UINT8_MAX \<or> endptr \<noteq> [] \<or> drop (sep + 1) str = endptr then None
                      else Some (ipv\<lparr>ip := a, cidr := word_of_nat res\<rparr>))))"

definition parse_value :: "decls \<Rightarrow> nat \<Rightarrow> string \<Rightarrow> wg_dynamic_attr option outcome" where
  "parse_value d k str =
     (if k = WGKEY_IPV4 d then
        (case parse_ip_cidr d \<lparr>family = AF_INET, ip = replicate 16 0, cidr = 0\<rparr> str of
           None \<Rightarrow> Returns None
         | Some i \<Rightarrow> Returns (Some \<lparr>key = k, len = sizeof_wg_combined_ip d, val = Ip i\<rparr>))
      else if k = WGKEY_IPV6 d then
        (case parse_ip_cidr d \<lparr>family = AF_INET6, ip = replicate 16 0, cidr = 0\<rparr> str of
           None \<Rightarrow> Returns None
         | Some i \<Rightarrow> Returns (Some \<lparr>key = k, len = sizeof_wg_combined_ip d, val = Ip i\<rparr>))
      else if k = WGKEY_LEASESTART d \<or> k = WGKEY_LEASETIME d \<or> k = WGKEY_ERRNO d then
        (case strtoumax str of
           (uresult, endptr) \<Rightarrow>
             if uresult > UINT32_MAX \<or> endptr \<noteq> [] then Returns None
             else Returns (Some \<lparr>key = k, len = 4, val = Uint32 (word_of_nat uresult)\<rparr>))
      else if k = WGKEY_ERRMSG d then
        Returns (Some \<lparr>key = k, len = min 72 (length str + 1),
                        val = Errmsg (take 71 str @ [NUL])\<rparr>)
      else Aborted)"

section \<open>The key lookup and the line tokenizer\<close>

definition parse_key :: "decls \<Rightarrow> string \<Rightarrow> nat" where
  "parse_key d name =
     (case find (\<lambda>e. name = WG_DYNAMIC_KEY d ! e) [1 ..< length (WG_DYNAMIC_KEY d)] of
        Some e \<Rightarrow> e
      | None \<Rightarrow> WGKEY_UNKNOWN d)"

text \<open>
  \<open>parse_line(buf, len, &attr, req)\<close>: the result is the return value, the attribute stored
  through \<open>attr\<close> and the request after the call (\<open>None\<close> when \<open>req\<close> is a null pointer).
  The caller reads \<open>*attr\<close> only after a positive return value, and every such path
  assigns it. The two NUL bytes that the function writes into the buffer end the key and
  the value: they are the \<open>c_str\<close> of the bytes before the \<open>=\<close> and before the newline.
\<close>

definition parse_line ::
  "decls \<Rightarrow> string \<Rightarrow> wg_dynamic_request option \<Rightarrow>
   (int \<times> wg_dynamic_attr option \<times> wg_dynamic_request option) outcome" where
  "parse_line d bytes req =
     (case memchr bytes LF (if length bytes > MAX_LINESIZE d then MAX_LINESIZE d else length bytes) of
        None \<Rightarrow>
          if length bytes \<ge> MAX_LINESIZE d then Returns (- E2BIG, None, req)
          else Returns (int (length bytes),
                        Some \<lparr>key = WGKEY_INCOMPLETE d, len = length bytes, val = Fragment bytes\<rparr>,
                        req)
      | Some line_end \<Rightarrow>
          if line_end = 0 then Returns (0, None, req)
          else
            (case memchr bytes (CHR ''='') line_end of
               None \<Rightarrow> Returns (- EINVAL, None, req)
             | Some key_end \<Rightarrow>
                 let k = parse_key d (c_str (take key_end bytes));
                     str = c_str (drop (key_end + 1) (take line_end bytes))
                 in if k = WGKEY_UNKNOWN d then Returns (- ENOENT, None, req)
                    else
                      (case req of
                         Some r \<Rightarrow>
                           if k \<ge> WGKEY_ENDCMD d then Returns (- ENOENT, None, req)
                           else
                             (case strtoumax str of
                                (res, endptr) \<Rightarrow>
                                  if res > UINT32_MAX \<or> endptr \<noteq> [] then Returns (- EINVAL, None, req)
                                  else
                                    let r' = r\<lparr>cmd := k, version := word_of_nat res\<rparr>
                                    in if version r' \<noteq> 1 then Returns (- EPROTONOSUPPORT, None, Some r')
                                       else Returns (int (line_end + 1), None, Some r'))
                       | None \<Rightarrow>
                           if k \<le> WGKEY_ENDCMD d then Returns (- ENOENT, None, None)
                           else
                             (case parse_value d k str of
                                Returns None \<Rightarrow> Returns (- EINVAL, None, None)
                              | Returns (Some a) \<Rightarrow> Returns (int (line_end + 1), Some a, None)
                              | Aborted \<Rightarrow> Aborted
                              | Out_of_bounds \<Rightarrow> Out_of_bounds))))"

section \<open>The request accumulator\<close>

text \<open>
  The loop of \<open>parse_request\<close> over the bytes that are left, \<open>buf + offset\<close> of length
  \<open>len\<close>. \<open>parse_line\<close> is given the request while no command is set.
\<close>

function parse_lines ::
  "decls \<Rightarrow> wg_dynamic_request \<Rightarrow> string \<Rightarrow> (int \<times> wg_dynamic_request) outcome" where
  "parse_lines d req bytes =
     (if bytes = [] then Returns (1, req)
      else
        case parse_line d bytes (if cmd req = WGKEY_UNKNOWN d then Some req else None) of
          Returns (ret, attr, ropt) \<Rightarrow>
            let req' = (case ropt of Some r \<Rightarrow> r | None \<Rightarrow> req)
            in if ret \<le> 0 then Returns (ret, req')
               else
                 parse_lines d
                   (case attr of
                      None \<Rightarrow> req'
                    | Some a \<Rightarrow> req'\<lparr>attrs := attrs req' @ [a]\<rparr>)
                   (drop (nat ret) bytes)
        | Aborted \<Rightarrow> Aborted
        | Out_of_bounds \<Rightarrow> Out_of_bounds)"
  by pat_completeness auto
termination
  by (relation "measure (\<lambda>(d, req, bytes). length bytes)") auto

text \<open>
  \<open>parse_request(req, buf, len)\<close>, where \<open>buf\<close> points to an array of \<open>bufsize\<close> bytes that
  holds the chunk. When the last attribute is the marker of an incomplete line, its bytes
  are put in front of the chunk and the marker is unlinked and freed. The \<open>memmove\<close> that
  makes room runs after \<open>len\<close> has grown by the marker's length, so it writes
  \<open>len\<close> bytes at offset \<open>req->last->len\<close>, which must fit in the array.
\<close>

definition parse_request ::
  "decls \<Rightarrow> nat \<Rightarrow> wg_dynamic_request \<Rightarrow> string \<Rightarrow> (int \<times> wg_dynamic_request) outcome" where
  "parse_request d bufsize req bytes =
     (if NUL \<in> set bytes then Returns (- EINVAL, req)
      else if attrs req \<noteq> [] \<and> key (last (attrs req)) = WGKEY_INCOMPLETE d then
        let l = last (attrs req);
            n = length bytes + len l
        in if bufsize < len l + n then Out_of_bounds
           else
             parse_lines d (req\<lparr>attrs := butlast (attrs req)\<rparr>)
               (take (len l) (attr_bytes (val l)) @ bytes)
      else parse_lines d req bytes)"

text \<open>
  Successive calls of \<open>parse_request\<close> on the chunks of a stream, as the loop of
  \<open>handle_request\<close> makes them: the next chunk is parsed while the return value is positive.
\<close>

fun feed ::
  "decls \<Rightarrow> nat \<Rightarrow> wg_dynamic_request \<Rightarrow> string list \<Rightarrow> (int \<times> wg_dynamic_request) outcome" where
  "feed d bufsize req [] = Returns (1, req)"
| "feed d bufsize req (c # cs) =
     (case parse_request d bufsize req c of
        Returns (ret, req') \<Rightarrow>
          if ret > 0 \<and> cs \<noteq> [] then feed d bufsize req' cs else Returns (ret, req')
      | Aborted \<Rightarrow> Aborted
      | Out_of_bounds \<Rightarrow> Out_of_bounds)"

section \<open>The connection driver\<close>

text \<open>
  What one call of \<open>read\<close> or \<open>write\<close> on the socket gives: a byte count (with the bytes
  read), or \<open>-1\<close> with a value of \<open>errno\<close>. The socket is a list of such results, consumed
  one per call; a call the list has no result for, or a result the system call cannot
  give (more bytes than were asked for), leaves the model without an answer (\<open>None\<close>).
\<close>

datatype read_result = Read_bytes string | Read_fail int

datatype write_result = Written nat | Write_fail int

text \<open>Which callback a call of \<open>handle_request\<close> has invoked.\<close>

datatype callback = No_callback | Success_callback | Error_callback int

text \<open>
  \<open>handle_request(req, success, error)\<close>. A callback maps the request to its return value
  and the request it leaves. The messages of \<open>debug\<close> are not modelled.
\<close>

fun handle_request ::
  "decls \<Rightarrow> (wg_dynamic_request \<Rightarrow> bool \<times> wg_dynamic_request) \<Rightarrow>
   (wg_dynamic_request \<Rightarrow> int \<Rightarrow> bool \<times> wg_dynamic_request) \<Rightarrow>
   wg_dynamic_request \<Rightarrow> read_result list \<Rightarrow>
   (bool \<times> wg_dynamic_request \<times> callback) outcome option" where
  "handle_request d success error req [] = None"
| "handle_request d success error req (Read_fail e # rs) =
     (if e = EWOULDBLOCK \<or> e = EAGAIN then Some (Returns (False, req, No_callback))
      else Some (Returns (True, req, No_callback)))"
| "handle_request d success error req (Read_bytes bytes # rs) =
     (if length bytes > RECV_BUFSIZE d then None
      else if bytes = [] then Some (Returns (True, req, No_callback))
      else
        case parse_request d (RECV_BUFSIZE d + MAX_LINESIZE d) req bytes of
          Returns (ret, req') \<Rightarrow>
            if ret < 0 then
              (case error req' (- ret) of (b, r) \<Rightarrow> Some (Returns (b, r, Error_callback (- ret))))
            else if ret = 0 then
              (case success req' of (b, r) \<Rightarrow> Some (Returns (b, r, Success_callback)))
            else handle_request d success error req' rs
        | Aborted \<Rightarrow> Some Aborted
        | Out_of_bounds \<Rightarrow> Some Out_of_bounds)"

text \<open>
  The loop of \<open>send_message\<close>: \<open>Some (True, offset)\<close> when it returns true from inside the
  loop, \<open>Some (False, offset)\<close> when it leaves the loop because the socket would block.
\<close>

fun write_loop :: "nat \<Rightarrow> nat \<Rightarrow> write_result list \<Rightarrow> (bool \<times> nat) option" where
  "write_loop n offset [] = None"
| "write_loop n offset (Write_fail e # ws) =
     (if e = EWOULDBLOCK \<or> e = EAGAIN then Some (False, offset) else Some (True, offset))"
| "write_loop n offset (Written written # ws) =
     (if written > n - offset then None
      else if offset + written = n then Some (True, offset + written)
      else write_loop n (offset + written) ws)"

text \<open>
  \<open>send_message(req, buf, len)\<close>. With no pending block, one of the remainder's size is
  allocated and filled. Otherwise the remainder is moved into the block that is already
  there, whatever its size: \<open>memmove\<close> writes past its end when the remainder is longer.
\<close>

definition send_message ::
  "wg_dynamic_request \<Rightarrow> string \<Rightarrow> write_result list \<Rightarrow> (bool \<times> wg_dynamic_request) outcome option" where
  "send_message req bytes ws =
     (case write_loop (length bytes) 0 ws of
        None \<Rightarrow> None
      | Some (True, offset) \<Rightarrow> Some (Returns (True, req))
      | Some (False, offset) \<Rightarrow>
          (case buf req of
             None \<Rightarrow>
               Some (Returns (False, req\<lparr>buflen := length bytes - offset,
                                         buf := Some (drop offset bytes)\<rparr>))
           | Some block \<Rightarrow>
               let n = length bytes - offset
               in if n > length block then Some Out_of_bounds
                  else Some (Returns (False, req\<lparr>buflen := n,
                                                 buf := Some (drop offset bytes @ drop n block)\<rparr>))))"

text \<open>The loop of \<open>close_connection\<close>: the nodes it passes to \<open>free\<close>, in order.\<close>

fun free_attrs :: "wg_dynamic_attr list \<Rightarrow> wg_dynamic_attr list" where
  "free_attrs [] = []"
| "free_attrs (prev # cur) = prev # free_attrs cur"

text \<open>
  \<open>close_connection(req)\<close>: the request it leaves, the attribute nodes it has freed and the
  block it has freed (\<open>free\<close> of a null pointer frees nothing). The result of \<open>close\<close> is
  only logged.
\<close>

definition close_connection ::
  "decls \<Rightarrow> wg_dynamic_request \<Rightarrow> wg_dynamic_request \<times> wg_dynamic_attr list \<times> string option" where
  "close_connection d req =
     (let freed = free_attrs (attrs req)
      in (req\<lparr>cmd := WGKEY_UNKNOWN d, version := 0, fd := - 1, buf := None, buflen := 0,
              attrs := []\<rparr>,
          freed, buf req))"

section \<open>An instance of the declarations\<close>

text \<open>
  Dotted-quad text as \<open>inet_pton\<close> accepts it for \<open>AF_INET\<close>: four decimal numbers up to
  255, of one to three digits without a leading zero, separated by dots. This stand-in
  knows no other family and rejects every text for it.
\<close>

fun split_on :: "char \<Rightarrow> string \<Rightarrow> string list" where
  "split_on c [] = [[]]"
| "split_on c (x # xs) =
     (if x = c then [] # split_on c xs
      else case split_on c xs of
             [] \<Rightarrow> [[x]]
           | w # ws \<Rightarrow> (x # w) # ws)"

definition octet :: "string \<Rightarrow> 8 word option" where
  "octet ds =
     (if ds \<noteq> [] \<and> length ds \<le> 3 \<and> list_all isdigit ds \<and> (length ds = 1 \<or> hd ds \<noteq> CHR ''0'')
         \<and> dec_val ds \<le> 255
      then Some (word_of_nat (dec_val ds)) else None)"

definition inet_pton_ipv4 :: "nat \<Rightarrow> string \<Rightarrow> 8 word list option" where
  "inet_pton_ipv4 af str =
     (if af = AF_INET then
        (case map octet (split_on (CHR ''.'') str) of
           [Some a, Some b, Some c, Some d] \<Rightarrow> Some [a, b, c, d]
         | _ \<Rightarrow> None)
      else None)"

text \<open>
  Modelled from the spec: common.h, which declares \<open>enum wg_dynamic_key\<close>, the table
  \<open>WG_DYNAMIC_KEY\<close>, \<open>MAX_LINESIZE\<close>, \<open>RECV_BUFSIZE\<close> and \<open>struct wg_combined_ip\<close>, is
  not among the sources. The spec names the attributes ipv4, ipv6, leasestart, leasetime, errno and
  errmsg, writes the command line of its examples as \<open>request=1\<close>, and puts the command keys
  before a boundary marker and the attribute keys after it. It gives the two sentinels and
  the marker no name (the empty name here), the marker of an incomplete line no place
  (after the boundary marker here) and the limits no value (4096 and 8192 here, and 20
  bytes for the structure).
\<close>

definition spec_decls :: decls where
  "spec_decls =
     \<lparr>WG_DYNAMIC_KEY = ['''', ''request'', '''', '''', ''ipv4'', ''ipv6'', ''leasestart'',
                        ''leasetime'', ''errno'', ''errmsg''],
      WGKEY_UNKNOWN = 0, WGKEY_INCOMPLETE = 3, WGKEY_ENDCMD = 2,
      WGKEY_IPV4 = 4, WGKEY_IPV6 = 5, WGKEY_LEASESTART = 6, WGKEY_LEASETIME = 7,
      WGKEY_ERRNO = 8, WGKEY_ERRMSG = 9,
      MAX_LINESIZE = 4096, RECV_BUFSIZE = 8192, sizeof_wg_combined_ip = 20,
      inet_pton = inet_pton_ipv4\<rparr>"

text \<open>
  Modelled from the spec: the initialiser of a request is not among the sources. Before a connection
  uses it every field of a request is zero or unset: no command, version 0, no descriptor,
  no pending block and no attribute.
\<close>

definition request_init :: "decls \<Rightarrow> wg_dynamic_request" where
  "request_init d =
     \<lparr>cmd = WGKEY_UNKNOWN d, version = 0, fd = - 1, buf = None, buflen = 0, attrs = []\<rparr>"

section \<open>Notions used by the properties\<close>

text \<open>No attribute of the sequence is the marker of an incomplete line.\<close>

definition complete_attrs :: "decls \<Rightarrow> wg_dynamic_attr list \<Rightarrow> bool" where
  "complete_attrs d as = list_all (\<lambda>a. key a \<noteq> WGKEY_INCOMPLETE d) as"

text \<open>Two callbacks for the examples: one asks to close the connection, one to keep it.\<close>

definition close_when_done :: "wg_dynamic_request \<Rightarrow> bool \<times> wg_dynamic_request" where
  "close_when_done req = (True, req)"

definition keep_open_on_error :: "wg_dynamic_request \<Rightarrow> int \<Rightarrow> bool \<times> wg_dynamic_request" where
  "keep_open_on_error req reason = (False, req)"

text \<open>
  The texts that \<open>strtoumax\<close> converts up to their end: white space \<open>ws\<close>, a sign \<open>sg\<close>
  or none, and at least one decimal digit \<open>ds\<close>; and the value it returns for them.
\<close>

definition numeric_text :: "string \<Rightarrow> string \<Rightarrow> string \<Rightarrow> bool" where
  "numeric_text ws sg ds =
     (list_all isspace ws \<and> (sg = [] \<or> sg = ''+'' \<or> sg = ''-'') \<and> ds \<noteq> [] \<and> list_all isdigit ds)"

definition converted :: "string \<Rightarrow> string \<Rightarrow> nat" where
  "converted sg ds =
     (if dec_val ds > UINTMAX_MAX then UINTMAX_MAX
      else if sg = ''-'' then (2 ^ 64 - dec_val ds) mod 2 ^ 64
      else dec_val ds)"

declare parse_lines.simps [simp del]

section \<open>Lemmas on the tokenizer and the accumulator\<close>

lemma memchr_Nil: "memchr [] c n = None"
  by (simp add: memchr_def)

lemma memchr_Cons:
  "memchr (x # xs) c n =
     (if n = 0 then None else if x = c then Some 0 else map_option Suc (memchr xs c (n - 1)))"
  by (cases n) (auto simp: memchr_def Let_def)

lemma memchr_Some_iff:
  "memchr bytes c n = Some k \<longleftrightarrow>
     k < n \<and> k < length bytes \<and> bytes ! k = c \<and> c \<notin> set (take k bytes)"
proof (induction bytes arbitrary: n k)
  case Nil
  then show ?case by (simp add: memchr_Nil)
next
  case (Cons x xs)
  show ?case
  proof (cases k)
    case 0
    then show ?thesis by (auto simp: memchr_Cons)
  next
    case (Suc j)
    then show ?thesis
      using Cons.IH [of "n - 1" j] by (cases n) (auto simp: memchr_Cons)
  qed
qed

lemma memchr_None_iff: "memchr bytes c n = None \<longleftrightarrow> c \<notin> set (take n bytes)"
proof (induction bytes arbitrary: n)
  case Nil
  then show ?case by (simp add: memchr_Nil)
next
  case (Cons x xs)
  then show ?case by (cases n) (auto simp: memchr_Cons)
qed

lemma memchr_prefix: "n \<le> length bytes \<Longrightarrow> memchr (bytes @ rest) c n = memchr bytes c n"
  by (simp add: memchr_def)

lemma memchr_Some_append:
  assumes "memchr bytes c n = Some k" and "n \<le> n'"
  shows "memchr (bytes @ rest) c n' = Some k"
  using assms by (auto simp: memchr_Some_iff nth_append)


lemma memchr_less: "memchr bytes c n = Some k \<Longrightarrow> k < n \<and> k < length bytes"
  by (simp add: memchr_Some_iff)

lemma parse_line_append:
  assumes "memchr bytes LF (if length bytes > MAX_LINESIZE d then MAX_LINESIZE d else length bytes) = Some k"
  shows "parse_line d (bytes @ rest) req = parse_line d bytes req"
proof -
  from assms have k: "k < length bytes" by (simp add: memchr_less)
  have A: "memchr (bytes @ rest) LF
             (if length (bytes @ rest) > MAX_LINESIZE d then MAX_LINESIZE d else length (bytes @ rest)) = Some k"
    using assms by (intro memchr_Some_append [where n = "if length bytes > MAX_LINESIZE d then MAX_LINESIZE d else length bytes"]) auto
  have B: "memchr (bytes @ rest) (CHR ''='') k = memchr bytes (CHR ''='') k"
    using k by (simp add: memchr_prefix)
  have C: "take i (bytes @ rest) = take i bytes" if "i \<le> k" for i
    using that k by simp
  have D: "i < k" if "memchr bytes (CHR ''='') k = Some i" for i
    using that by (simp add: memchr_less)
  show ?thesis
  proof (cases "memchr bytes (CHR ''='') k")
    case None
    show ?thesis
      apply (simp only: parse_line_def A assms option.case)
      apply (simp add: B None)
      done
  next
    case (Some i)
    then have "i < k" by (rule D)
    with k have "i < length bytes" by simp
    with k show ?thesis
      apply (simp only: parse_line_def A assms option.case)
      apply (simp add: B Some)
      done
  qed
qed


lemma parse_lines_Nil: "parse_lines d req [] = Returns (1, req)"
  by (simp add: parse_lines.simps)

lemma parse_lines_unfold:
  "bytes \<noteq> [] \<Longrightarrow> parse_lines d req bytes =
     (case parse_line d bytes (if cmd req = WGKEY_UNKNOWN d then Some req else None) of
        Returns (ret, attr, ropt) \<Rightarrow>
          let req' = (case ropt of Some r \<Rightarrow> r | None \<Rightarrow> req)
          in if ret \<le> 0 then Returns (ret, req')
             else
               parse_lines d
                 (case attr of
                    None \<Rightarrow> req'
                  | Some a \<Rightarrow> req'\<lparr>attrs := attrs req' @ [a]\<rparr>)
                 (drop (nat ret) bytes)
      | Aborted \<Rightarrow> Aborted
      | Out_of_bounds \<Rightarrow> Out_of_bounds)"
  by (subst parse_lines.simps) simp

lemma parse_line_no_newline:
  assumes "memchr bytes LF (if length bytes > MAX_LINESIZE d then MAX_LINESIZE d else length bytes) = None"
  shows "parse_line d bytes m =
     (if length bytes \<ge> MAX_LINESIZE d then Returns (- E2BIG, None, m)
      else Returns (int (length bytes),
             Some \<lparr>key = WGKEY_INCOMPLETE d, len = length bytes, val = Fragment bytes\<rparr>, m))"
  by (simp only: parse_line_def assms option.case)

lemma parse_value_key:
  assumes "parse_value d k str = Returns (Some a)"
  shows "key a = k \<and> k \<in> {WGKEY_IPV4 d, WGKEY_IPV6 d, WGKEY_LEASESTART d, WGKEY_LEASETIME d,
                           WGKEY_ERRNO d, WGKEY_ERRMSG d}"
  using assms
  by (auto simp: parse_value_def split: if_splits option.splits prod.splits)

lemma parse_line_newline:
  assumes "memchr bytes LF (if length bytes > MAX_LINESIZE d then MAX_LINESIZE d else length bytes) = Some k"
    and "parse_line d bytes m = Returns (ret, a, ropt)" and "ret > 0"
  shows "ret = int (k + 1) \<and> (\<forall>x. a = Some x \<longrightarrow> (\<exists>kk str. parse_value d kk str = Returns (Some x)))"
  using assms(2,3)
  apply (simp only: parse_line_def assms(1) option.case)
  apply (auto simp: Let_def E2BIG_def EINVAL_def ENOENT_def EPROTONOSUPPORT_def
              split: if_splits option.splits outcome.splits prod.splits)
  done


lemma parse_lines_stable:
  assumes "parse_lines d req bytes = res"
    and "\<And>ret req'. res = Returns (ret, req') \<Longrightarrow> ret \<le> 0"
  shows "parse_lines d req (bytes @ rest) = res"
  using assms
proof (induction "length bytes" arbitrary: bytes req rule: less_induct)
  case less
  let ?m = "if cmd req = WGKEY_UNKNOWN d then Some req else None"
  let ?lim = "if length bytes > MAX_LINESIZE d then MAX_LINESIZE d else length bytes"
  show ?case
  proof (cases "bytes = []")
    case True
    with less.prems show ?thesis by (auto simp: parse_lines_Nil)
  next
    case False
    note ne = this
    show ?thesis
    proof (cases "memchr bytes LF ?lim")
      case None
      note pl = parse_line_no_newline [OF None, of ?m]
      show ?thesis
      proof (cases "length bytes \<ge> MAX_LINESIZE d")
        case True
        then have lim: "?lim = MAX_LINESIZE d" by auto
        let ?lim' = "if length (bytes @ rest) > MAX_LINESIZE d then MAX_LINESIZE d
                     else length (bytes @ rest)"
        from True have lim': "?lim' = MAX_LINESIZE d" by auto
        have "memchr (bytes @ rest) LF (MAX_LINESIZE d) = None"
          using None True unfolding lim by (simp add: memchr_prefix)
        then have "memchr (bytes @ rest) LF ?lim' = None" unfolding lim' .
        from parse_line_no_newline [OF this, of ?m] True
        have "parse_line d (bytes @ rest) ?m = Returns (- E2BIG, None, ?m)" by simp
        moreover from pl True have "parse_line d bytes ?m = Returns (- E2BIG, None, ?m)" by simp
        ultimately show ?thesis
          using less.prems(1) ne
          by (simp add: parse_lines_unfold E2BIG_def)
      next
        case False
        with pl ne have "parse_lines d req bytes =
            Returns (1, (case ?m of Some r \<Rightarrow> r | None \<Rightarrow> req)
                          \<lparr>attrs := attrs (case ?m of Some r \<Rightarrow> r | None \<Rightarrow> req) @
                             [\<lparr>key = WGKEY_INCOMPLETE d, len = length bytes, val = Fragment bytes\<rparr>]\<rparr>)"
          by (simp add: parse_lines_unfold parse_lines_Nil)
        with less.prems show ?thesis by fastforce
      qed
    next
      case (Some k)
      then have k: "k < length bytes" by (simp add: memchr_less)
      have same: "parse_line d (bytes @ rest) ?m = parse_line d bytes ?m"
        using Some by (rule parse_line_append)
      show ?thesis
      proof (cases "parse_line d bytes ?m")
        case (Returns p)
        obtain ret a ropt where p: "p = (ret, a, ropt)" by (cases p)
        show ?thesis
        proof (cases "ret \<le> 0")
          case True
          with Returns p same less.prems(1) ne show ?thesis
            by (simp add: parse_lines_unfold)
        next
          case False
          with Returns p Some have ret: "ret = int (k + 1)"
            using parse_line_newline [of bytes d k ?m ret a ropt] by simp
          let ?req = "case a of None \<Rightarrow> (case ropt of Some r \<Rightarrow> r | None \<Rightarrow> req)
                      | Some x \<Rightarrow> (case ropt of Some r \<Rightarrow> r | None \<Rightarrow> req)
                          \<lparr>attrs := attrs (case ropt of Some r \<Rightarrow> r | None \<Rightarrow> req) @ [x]\<rparr>"
          from ret have nr: "nat ret = Suc k" by simp
          have L: "parse_lines d req bytes = parse_lines d ?req (drop (k + 1) bytes)"
            using Returns p False ne
            by (simp add: parse_lines_unfold Let_def nr split: option.splits)
          have R: "parse_lines d req (bytes @ rest) = parse_lines d ?req (drop (k + 1) bytes @ rest)"
            using Returns p False ne same k
            by (simp add: parse_lines_unfold Let_def nr split: option.splits)
          have "length (drop (k + 1) bytes) < length bytes" using k by simp
          from less.hyps [OF this, of ?req] L less.prems
          have "parse_lines d ?req (drop (k + 1) bytes @ rest) = res" by simp
          with R show ?thesis by simp
        qed
      next
        case Aborted
        with same less.prems(1) ne show ?thesis by (simp add: parse_lines_unfold)
      next
        case Out_of_bounds
        with same less.prems(1) ne show ?thesis by (simp add: parse_lines_unfold)
      qed
    qed
  qed
qed


lemma parse_line_attrs:
  assumes "parse_line d bytes (if cmd req = WGKEY_UNKNOWN d then Some req else None) = Returns (ret, a, ropt)"
  shows "attrs (case ropt of Some r \<Rightarrow> r | None \<Rightarrow> req) = attrs req"
  using assms
  by (auto simp: parse_line_def Let_def
           split: if_splits option.splits outcome.splits prod.splits)

lemma parse_request_continues:
  assumes "decls_ok d"
    and "complete_attrs d (attrs req)"
    and "parse_lines d req bytes = Returns (ret, req1)"
    and "ret > 0"
    and "NUL \<notin> set rest"
    and "MAX_LINESIZE d + length bytes + length rest \<le> bufsize"
  shows "parse_request d bufsize req1 rest = parse_lines d req (bytes @ rest)"
  using assms(2,3,6)
proof (induction "length bytes" arbitrary: bytes req rule: less_induct)
  case less
  let ?m = "if cmd req = WGKEY_UNKNOWN d then Some req else None"
  let ?lim = "if length bytes > MAX_LINESIZE d then MAX_LINESIZE d else length bytes"
  show ?case
  proof (cases "bytes = []")
    case True
    with less.prems have "req1 = req" by (simp add: parse_lines_Nil)
    moreover have "\<not> (attrs req \<noteq> [] \<and> key (last (attrs req)) = WGKEY_INCOMPLETE d)"
      using less.prems(1) by (auto simp: complete_attrs_def list_all_iff)
    ultimately show ?thesis
      using True assms(5) by (auto simp: parse_request_def)
  next
    case False
    note ne = this
    show ?thesis
    proof (cases "memchr bytes LF ?lim")
      case None
      note pl = parse_line_no_newline [OF None, of ?m]
      show ?thesis
      proof (cases "length bytes \<ge> MAX_LINESIZE d")
        case True
        with pl ne less.prems(2) assms(4) show ?thesis
          by (simp add: parse_lines_unfold E2BIG_def)
      next
        case False
        let ?f = "\<lparr>key = WGKEY_INCOMPLETE d, len = length bytes, val = Fragment bytes\<rparr>"
        from False pl ne have "parse_lines d req bytes = Returns (1, req\<lparr>attrs := attrs req @ [?f]\<rparr>)"
          by (simp add: parse_lines_unfold parse_lines_Nil)
        with less.prems(2) have req1: "req1 = req\<lparr>attrs := attrs req @ [?f]\<rparr>" by simp
        from False less.prems(3) have "\<not> bufsize < length bytes + (length rest + length bytes)"
          by simp
        then show ?thesis
          using assms(5) by (simp add: parse_request_def req1 Let_def)
      qed
    next
      case (Some k)
      then have k: "k < length bytes" by (simp add: memchr_less)
      have same: "parse_line d (bytes @ rest) ?m = parse_line d bytes ?m"
        using Some by (rule parse_line_append)
      show ?thesis
      proof (cases "parse_line d bytes ?m")
        case (Returns p)
        obtain r a ropt where p: "p = (r, a, ropt)" by (cases p)
        show ?thesis
        proof (cases "r \<le> 0")
          case True
          with Returns p less.prems(2) ne assms(4) show ?thesis
            by (simp add: parse_lines_unfold)
        next
          case False
          with Returns p Some
          have ret: "r = int (k + 1)"
            and typed: "\<And>x. a = Some x \<Longrightarrow> \<exists>kk str. parse_value d kk str = Returns (Some x)"
            using parse_line_newline [of bytes d k ?m r a ropt] by simp_all
          from ret have nr: "nat r = Suc k" by simp
          let ?r0 = "case ropt of Some r \<Rightarrow> r | None \<Rightarrow> req"
          let ?req = "case a of None \<Rightarrow> ?r0 | Some x \<Rightarrow> ?r0\<lparr>attrs := attrs ?r0 @ [x]\<rparr>"
          have at: "attrs ?r0 = attrs req"
            using Returns p by (intro parse_line_attrs [of d bytes req r a]) simp
          have "key x \<noteq> WGKEY_INCOMPLETE d" if "a = Some x" for x
          proof -
            from typed [OF that] obtain kk str where "parse_value d kk str = Returns (Some x)"
              by blast
            from parse_value_key [OF this] assms(1) show ?thesis
              by (auto simp: decls_ok_def)
          qed
          with less.prems(1) at have ok: "complete_attrs d (attrs ?req)"
            by (cases a) (simp_all add: complete_attrs_def)
          have L: "parse_lines d req bytes = parse_lines d ?req (drop (k + 1) bytes)"
            using Returns p False ne
            by (simp add: parse_lines_unfold Let_def nr split: option.splits)
          have R: "parse_lines d req (bytes @ rest) = parse_lines d ?req (drop (k + 1) bytes @ rest)"
            using Returns p False ne same k
            by (simp add: parse_lines_unfold Let_def nr split: option.splits)
          have "length (drop (k + 1) bytes) < length bytes" using k by simp
          moreover have "MAX_LINESIZE d + length (drop (k + 1) bytes) + length rest \<le> bufsize"
            using less.prems(3) by simp
          ultimately
          have "parse_request d bufsize req1 rest = parse_lines d ?req (drop (k + 1) bytes @ rest)"
            using less.hyps [of "drop (k + 1) bytes" ?req] ok L less.prems(2) by simp
          with R show ?thesis by simp
        qed
      next
        case Aborted
        with less.prems(2) ne show ?thesis by (simp add: parse_lines_unfold)
      next
        case Out_of_bounds
        with less.prems(2) ne show ?thesis by (simp add: parse_lines_unfold)
      qed
    qed
  qed
qed


lemma parse_request_complete:
  assumes "complete_attrs d (attrs req)" and "NUL \<notin> set bytes"
  shows "parse_request d bufsize req bytes = parse_lines d req bytes"
proof -
  have "\<not> (attrs req \<noteq> [] \<and> key (last (attrs req)) = WGKEY_INCOMPLETE d)"
    using assms(1) by (auto simp: complete_attrs_def list_all_iff)
  with assms(2) show ?thesis by (auto simp: parse_request_def)
qed

lemma feed_concat:
  assumes "decls_ok d"
    and "complete_attrs d (attrs req)"
    and "parse_lines d req pre = Returns (ret, req1)"
    and "ret > 0"
    and "cs \<noteq> []"
    and "NUL \<notin> set (concat cs)"
    and "MAX_LINESIZE d + length pre + length (concat cs) \<le> bufsize"
  shows "feed d bufsize req1 cs = parse_lines d req (pre @ concat cs)"
  using assms(3-7)
proof (induction cs arbitrary: pre ret req1)
  case Nil
  then show ?case by simp
next
  case (Cons c cs)
  from Cons.prems have c: "NUL \<notin> set c" "MAX_LINESIZE d + length pre + length c \<le> bufsize"
    by auto
  have step: "parse_request d bufsize req1 c = parse_lines d req (pre @ c)"
    using assms(1,2) Cons.prems(1,2) c by (rule parse_request_continues)
  show ?case
  proof (cases "cs = []")
    case True
    with step show ?thesis by (auto split: outcome.splits)
  next
    case False
    show ?thesis
    proof (cases "parse_lines d req (pre @ c)")
      case (Returns p)
      obtain r req2 where p: "p = (r, req2)" by (cases p)
      show ?thesis
      proof (cases "r > 0")
        case True
        from Cons.prems have rest: "NUL \<notin> set (concat cs)"
          "MAX_LINESIZE d + length (pre @ c) + length (concat cs) \<le> bufsize" by auto
        from Cons.IH [of "pre @ c" r req2] Returns p True False rest
        have "feed d bufsize req2 cs = parse_lines d req ((pre @ c) @ concat cs)" by simp
        with step Returns p True False show ?thesis by simp
      next
        case False
        with Returns p have "parse_lines d req ((pre @ c) @ concat cs) = Returns (r, req2)"
          using parse_lines_stable [of d req "pre @ c" "Returns (r, req2)" "concat cs"] by auto
        with step Returns p False show ?thesis by simp
      qed
    next
      case Aborted
      then have "parse_lines d req ((pre @ c) @ concat cs) = Aborted"
        using parse_lines_stable [of d req "pre @ c" Aborted "concat cs"] by auto
      with step Aborted show ?thesis by simp
    next
      case Out_of_bounds
      then have "parse_lines d req ((pre @ c) @ concat cs) = Out_of_bounds"
        using parse_lines_stable [of d req "pre @ c" Out_of_bounds "concat cs"] by auto
      with step Out_of_bounds show ?thesis by simp
    qed
  qed
qed

lemma c_str_id: "NUL \<notin> set bytes \<Longrightarrow> c_str bytes = bytes"
  by (auto simp: c_str_def takeWhile_eq_all_conv)

lemma parse_line_key_value:
  assumes "CHR ''='' \<notin> set name"
    and "LF \<notin> set (name @ str)"
    and "NUL \<notin> set (name @ str)"
    and "length (name @ CHR ''='' # str) < MAX_LINESIZE d"
  shows "parse_line d (name @ CHR ''='' # str @ LF # rest) m =
     (let k = parse_key d name
      in if k = WGKEY_UNKNOWN d then Returns (- ENOENT, None, m)
         else
           (case m of
              Some r \<Rightarrow>
                if k \<ge> WGKEY_ENDCMD d then Returns (- ENOENT, None, m)
                else
                  (case strtoumax str of
                     (res, endptr) \<Rightarrow>
                       if res > UINT32_MAX \<or> endptr \<noteq> [] then Returns (- EINVAL, None, m)
                       else
                         let r' = r\<lparr>cmd := k, version := word_of_nat res\<rparr>
                         in if version r' \<noteq> 1 then Returns (- EPROTONOSUPPORT, None, Some r')
                            else Returns (int (length (name @ CHR ''='' # str) + 1), None, Some r'))
            | None \<Rightarrow>
                if k \<le> WGKEY_ENDCMD d then Returns (- ENOENT, None, None)
                else
                  (case parse_value d k str of
                     Returns None \<Rightarrow> Returns (- EINVAL, None, None)
                   | Returns (Some a) \<Rightarrow>
                       Returns (int (length (name @ CHR ''='' # str) + 1), Some a, None)
                   | Aborted \<Rightarrow> Aborted
                   | Out_of_bounds \<Rightarrow> Out_of_bounds)))"
proof -
  let ?bytes = "name @ CHR ''='' # str @ LF # rest"
  let ?j = "length (name @ CHR ''='' # str)"
  let ?lim = "if length ?bytes > MAX_LINESIZE d then MAX_LINESIZE d else length ?bytes"
  have tk: "take ?j ?bytes = name @ CHR ''='' # str" by simp
  have "LF \<noteq> CHR ''=''" by (simp add: LF_def)
  with assms(2) have "LF \<notin> set (take ?j ?bytes)" unfolding tk by auto
  moreover have "?bytes ! ?j = LF"
    by (metis append.assoc append_Cons nth_append_length)
  moreover have "?j < ?lim" using assms(4) by auto
  ultimately have A: "memchr ?bytes LF ?lim = Some ?j"
    by (simp only: memchr_Some_iff) simp
  have B: "memchr ?bytes (CHR ''='') ?j = Some (length name)"
    using assms(1) by (simp only: memchr_Some_iff) simp
  have C: "c_str (take (length name) ?bytes) = name"
    using assms(3) by (simp add: c_str_id)
  have D: "c_str (drop (length name + 1) (take ?j ?bytes)) = str"
    using assms(3) unfolding tk by (simp add: c_str_id)
  have E: "?j \<noteq> 0" by simp
  show ?thesis
    apply (simp only: parse_line_def A option.case B C D E if_False)
    apply (simp add: Let_def)
    done
qed

text \<open>One step of \<open>parse_lines\<close> on an empty line, on bytes without a newline, on a command line and on an attribute line.\<close>

lemma parse_lines_blank:
  assumes "0 < MAX_LINESIZE d"
  shows "parse_lines d req (LF # rest) = Returns (0, req)"
proof -
  let ?b = "LF # rest"
  have "memchr ?b LF (if length ?b > MAX_LINESIZE d then MAX_LINESIZE d else length ?b) = Some 0"
    using assms by (simp only: memchr_Some_iff) simp
  then have "parse_line d ?b m = Returns (0, None, m)" for m
    by (simp only: parse_line_def option.case) simp
  then show ?thesis
    by (simp add: parse_lines_unfold)
qed

lemma parse_lines_fragment:
  assumes "bytes \<noteq> []" and "LF \<notin> set bytes" and "length bytes < MAX_LINESIZE d"
  shows "parse_lines d req bytes =
     Returns (1, req\<lparr>attrs := attrs req @
        [\<lparr>key = WGKEY_INCOMPLETE d, len = length bytes, val = Fragment bytes\<rparr>]\<rparr>)"
proof -
  have "memchr bytes LF (if length bytes > MAX_LINESIZE d then MAX_LINESIZE d else length bytes) = None"
    using assms(2) by (auto simp: memchr_None_iff dest: in_set_takeD)
  from parse_line_no_newline [OF this] assms(1,3) show ?thesis
    by (simp add: parse_lines_unfold parse_lines_Nil)
qed

lemma parse_lines_command_line:
  assumes "cmd req = WGKEY_UNKNOWN d"
    and "CHR ''='' \<notin> set name" and "LF \<notin> set (name @ str)" and "NUL \<notin> set (name @ str)"
    and "length (name @ CHR ''='' # str) < MAX_LINESIZE d"
    and "parse_key d name \<noteq> WGKEY_UNKNOWN d" and "parse_key d name < WGKEY_ENDCMD d"
    and "strtoumax str = (v, [])" and "v \<le> UINT32_MAX" and "(word_of_nat v :: 32 word) = 1"
  shows "parse_lines d req (name @ CHR ''='' # str @ LF # rest) =
         parse_lines d (req\<lparr>cmd := parse_key d name, version := 1\<rparr>) rest"
proof -
  define bytes where "bytes = name @ CHR ''='' # str @ LF # rest"
  define j where "j = length (name @ CHR ''='' # str) + 1"
  have pl: "parse_line d bytes (Some req) =
      Returns (int j, None, Some (req\<lparr>cmd := parse_key d name, version := 1\<rparr>))"
    unfolding j_def bytes_def
    using assms(6-10) by (subst parse_line_key_value [OF assms(2-5)]) (auto simp: Let_def)
  have dr: "drop j bytes = rest" by (simp add: j_def bytes_def)
  have "j > 0" "bytes \<noteq> []" by (simp_all add: j_def bytes_def)
  then have "parse_lines d req bytes =
             parse_lines d (req\<lparr>cmd := parse_key d name, version := 1\<rparr>) rest"
    using assms(1) by (simp add: parse_lines_unfold pl dr)
  then show ?thesis unfolding bytes_def .
qed

lemma parse_lines_attribute_line:
  assumes "cmd req \<noteq> WGKEY_UNKNOWN d"
    and "CHR ''='' \<notin> set name" and "LF \<notin> set (name @ str)" and "NUL \<notin> set (name @ str)"
    and "length (name @ CHR ''='' # str) < MAX_LINESIZE d"
    and "parse_key d name \<noteq> WGKEY_UNKNOWN d" and "\<not> parse_key d name \<le> WGKEY_ENDCMD d"
    and "parse_value d (parse_key d name) str = Returns (Some a)"
  shows "parse_lines d req (name @ CHR ''='' # str @ LF # rest) =
         parse_lines d (req\<lparr>attrs := attrs req @ [a]\<rparr>) rest"
proof -
  define bytes where "bytes = name @ CHR ''='' # str @ LF # rest"
  define j where "j = length (name @ CHR ''='' # str) + 1"
  have pl: "parse_line d bytes None = Returns (int j, Some a, None)"
    unfolding j_def bytes_def
    using assms(6-8) by (subst parse_line_key_value [OF assms(2-5)]) (auto simp: Let_def)
  have dr: "drop j bytes = rest" by (simp add: j_def bytes_def)
  have "j > 0" "bytes \<noteq> []" by (simp_all add: j_def bytes_def)
  then have "parse_lines d req bytes = parse_lines d (req\<lparr>attrs := attrs req @ [a]\<rparr>) rest"
    using assms(1) by (simp add: parse_lines_unfold pl dr)
  then show ?thesis unfolding bytes_def .
qed

text \<open>The keys and the message decoder of the instance.\<close>

lemma spec_decls_keys:
  "parse_key spec_decls ''request'' = 1" "parse_key spec_decls ''errmsg'' = 9"
  by (simp_all add: parse_key_def spec_decls_def upt_rec)

lemma spec_decls_errmsg:
  assumes "71 \<le> n"
  shows "parse_value spec_decls 9 (replicate n c) =
         Returns (Some \<lparr>key = 9, len = 72, val = Errmsg (replicate 71 c @ [NUL])\<rparr>)"
  using assms by (simp add: parse_value_def spec_decls_def min_def)

lemmas eval_simps =
  memchr_Nil memchr_Cons parse_line_def parse_key_def c_str_def NUL_def LF_def
  strtoumax_def isspace_def isdigit_def digit_val_def dec_val_def
  UINTMAX_MAX_def UINT32_MAX_def UINT8_MAX_def
  ENOENT_def E2BIG_def EINVAL_def EPROTONOSUPPORT_def EAGAIN_def EWOULDBLOCK_def
  AF_INET_def AF_INET6_def
  parse_value_def parse_ip_cidr_def spec_decls_def request_init_def inet_pton_ipv4_def octet_def
  parse_request_def parse_lines.simps decls_ok_def complete_attrs_def Let_def upt_rec

section \<open>Splitting a stream into chunks\<close>

text \<open>A message that one call parses to its end has no NUL byte.\<close>

lemma parse_request_done_no_NUL:
  assumes "parse_request d bufsize req bytes = Returns (0, req')"
  shows "NUL \<notin> set bytes"
  using assms by (auto simp: parse_request_def EINVAL_def split: if_splits)

text \<open>
  Where the splice stays inside the array behind \<open>buf\<close>: starting from a request whose
  sequence holds no marker (a new request holds no attribute at all), feeding the chunks
  of a stream without NUL bytes to successive calls of \<open>parse_request\<close> gives the return
  value and the request that one call on the whole stream gives, when the array holds the
  stream and \<open>MAX_LINESIZE\<close> bytes more. The buffer of \<open>handle_request\<close> is that large
  only for a stream that one \<open>read\<close> can return.
\<close>

lemma feed_chunks_in_bounds:
  assumes "decls_ok d"
    and "complete_attrs d (attrs req)"
    and "cs \<noteq> []"
    and "NUL \<notin> set (concat cs)"
    and "MAX_LINESIZE d + length (concat cs) \<le> bufsize"
  shows "feed d bufsize req cs = parse_request d bufsize req (concat cs)"
proof -
  have nil: "parse_lines d req [] = Returns (1, req)" by (rule parse_lines_Nil)
  have "feed d bufsize req cs = parse_lines d req ([] @ concat cs)"
    using assms(3-5) by (intro feed_concat [OF assms(1,2) nil]) simp_all
  then have "feed d bufsize req cs = parse_lines d req (concat cs)" by simp
  also have "\<dots> = parse_request d bufsize req (concat cs)"
    using assms(2,4) by (simp add: parse_request_complete)
  finally show ?thesis .
qed

lemma feed_chunks_in_bounds_example:
  "decls_ok spec_decls
   \<and> complete_attrs spec_decls (attrs (request_init spec_decls))
   \<and> [''request=1'' @ [LF] @ ''ipv4=192.1'', ''68.1.5/32'' @ [LF] @ ''leasetime=3600'' @ [LF, LF]] \<noteq> []
   \<and> NUL \<notin> set (concat [''request=1'' @ [LF] @ ''ipv4=192.1'',
                             ''68.1.5/32'' @ [LF] @ ''leasetime=3600'' @ [LF, LF]])
   \<and> MAX_LINESIZE spec_decls
       + length (concat [''request=1'' @ [LF] @ ''ipv4=192.1'',
                          ''68.1.5/32'' @ [LF] @ ''leasetime=3600'' @ [LF, LF]]) \<le> 12288
   \<and> feed spec_decls 12288 (request_init spec_decls)
        [''request=1'' @ [LF] @ ''ipv4=192.1'', ''68.1.5/32'' @ [LF] @ ''leasetime=3600'' @ [LF, LF]]
      = Returns (0, \<lparr>cmd = 1, version = 1, fd = - 1, buf = None, buflen = 0,
                      attrs = [\<lparr>key = 4, len = 20,
                                 val = Ip \<lparr>family = 2, ip = [192, 168, 1, 5], cidr = 32\<rparr>\<rparr>,
                               \<lparr>key = 7, len = 4, val = Uint32 3600\<rparr>]\<rparr>)"
proof -
  let ?cs = "[''request=1'' @ [LF] @ ''ipv4=192.1'',
              ''68.1.5/32'' @ [LF] @ ''leasetime=3600'' @ [LF, LF]]"
  have h1: "decls_ok spec_decls" by (simp add: decls_ok_def spec_decls_def)
  have h2: "complete_attrs spec_decls (attrs (request_init spec_decls))"
    by (simp add: complete_attrs_def request_init_def)
  have h3: "?cs \<noteq> []" by simp
  have h4: "NUL \<notin> set (concat ?cs)" by (simp add: NUL_def LF_def)
  have h5: "MAX_LINESIZE spec_decls + length (concat ?cs) \<le> 12288"
    by (simp add: spec_decls_def)
  have "parse_request spec_decls 12288 (request_init spec_decls) (concat ?cs)
        = Returns (0, \<lparr>cmd = 1, version = 1, fd = - 1, buf = None, buflen = 0,
                        attrs = [\<lparr>key = 4, len = 20,
                                   val = Ip \<lparr>family = 2, ip = [192, 168, 1, 5], cidr = 32\<rparr>\<rparr>,
                                 \<lparr>key = 7, len = 4, val = Uint32 3600\<rparr>]\<rparr>)"
    by (simp add: eval_simps)
  with feed_chunks_in_bounds [OF h1 h2 h3 h4 h5] h1 h2 h3 h4 h5 show ?thesis
    by simp
qed

text \<open>
  C1. A well-formed request given in chunks is to leave the request and the return value
  that one call on the whole request leaves. The code does not do so for every split.
  \<open>parse_request\<close> adds the length of the pending fragment to \<open>len\<close> before it calls
  \<open>memmove(buf + req->last->len, buf, len)\<close>, so the move is longer than the chunk by
  the fragment's length. The request below is a command line and three \<open>errmsg\<close> lines, every line
  shorter than \<open>MAX_LINESIZE\<close>, 11035 bytes in all. Its first read of 3017 bytes ends
  3007 bytes into the first \<open>errmsg\<close> line; with the second read of 8018 bytes the move
  writes 11025 bytes at offset 3007 of the 12288 bytes that \<open>handle_request\<close> has
  allocated. One call on the whole request accepts it.
\<close>

theorem parse_request_chunks_overflow:
  "feed spec_decls 12288 (request_init spec_decls)
     [''request'' @ CHR ''='' # ''1'' @ LF # ''errmsg'' @ CHR ''='' # replicate 3000 (CHR ''x''),
      replicate 1000 (CHR ''x'') @ LF # ''errmsg'' @ CHR ''='' # replicate 4000 (CHR ''x'') @ LF #
        ''errmsg'' @ CHR ''='' # replicate 3000 (CHR ''x'') @ [LF, LF]]
   = Out_of_bounds
   \<and> handle_request spec_decls close_when_done keep_open_on_error (request_init spec_decls)
     [Read_bytes (''request'' @ CHR ''='' # ''1'' @ LF # ''errmsg'' @ CHR ''='' # replicate 3000 (CHR ''x'')),
      Read_bytes (replicate 1000 (CHR ''x'') @ LF # ''errmsg'' @ CHR ''='' # replicate 4000 (CHR ''x'') @ LF #
        ''errmsg'' @ CHR ''='' # replicate 3000 (CHR ''x'') @ [LF, LF])]
   = Some Out_of_bounds
   \<and> parse_request spec_decls 12288 (request_init spec_decls)
     ((''request'' @ CHR ''='' # ''1'' @ LF # ''errmsg'' @ CHR ''='' # replicate 3000 (CHR ''x'')) @
      (replicate 1000 (CHR ''x'') @ LF # ''errmsg'' @ CHR ''='' # replicate 4000 (CHR ''x'') @ LF #
        ''errmsg'' @ CHR ''='' # replicate 3000 (CHR ''x'') @ [LF, LF]))
   = Returns (0, request_init spec_decls
       \<lparr>cmd := 1, version := 1,
         attrs := [\<lparr>key = 9, len = 72, val = Errmsg (replicate 71 (CHR ''x'') @ [NUL])\<rparr>,
                   \<lparr>key = 9, len = 72, val = Errmsg (replicate 71 (CHR ''x'') @ [NUL])\<rparr>,
                   \<lparr>key = 9, len = 72, val = Errmsg (replicate 71 (CHR ''x'') @ [NUL])\<rparr>]\<rparr>)"
proof -
  let ?x = "CHR ''x''"
  let ?frag = "''errmsg'' @ CHR ''='' # replicate 3000 ?x"
  let ?c1 = "''request'' @ CHR ''='' # ''1'' @ LF # ?frag"
  let ?tail = "LF # ''errmsg'' @ CHR ''='' # replicate 4000 ?x @ LF #
        ''errmsg'' @ CHR ''='' # replicate 3000 ?x @ [LF, LF]"
  let ?c2 = "replicate 1000 ?x @ ?tail"
  let ?req0 = "request_init spec_decls"
  let ?req1 = "?req0\<lparr>cmd := 1, version := 1\<rparr>"
  let ?F = "\<lparr>key = WGKEY_INCOMPLETE spec_decls, len = length ?frag, val = Fragment ?frag\<rparr>"
  let ?E = "\<lparr>key = 9, len = 72, val = Errmsg (replicate 71 ?x @ [NUL])\<rparr>"
  have max: "MAX_LINESIZE spec_decls = 4096" "RECV_BUFSIZE spec_decls = 8192"
    "WGKEY_UNKNOWN spec_decls = 0" "WGKEY_ENDCMD spec_decls = 2" "WGKEY_INCOMPLETE spec_decls = 3"
    by (simp_all add: spec_decls_def)
  have st1: "strtoumax ''1'' = (1, [])"
    by (simp add: strtoumax_def isspace_def isdigit_def dec_val_def digit_val_def UINTMAX_MAX_def Let_def)
  have cmdline: "parse_lines spec_decls ?req0 (''request'' @ CHR ''='' # ''1'' @ LF # rest) =
                 parse_lines spec_decls ?req1 rest" for rest
    using parse_lines_command_line [of ?req0 spec_decls "''request''" "''1''" 1 rest] st1
    by (simp add: spec_decls_keys max request_init_def LF_def NUL_def UINT32_MAX_def)
  have errline: "parse_lines spec_decls req (''errmsg'' @ CHR ''='' # replicate n ?x @ LF # rest) =
                 parse_lines spec_decls (req\<lparr>attrs := attrs req @ [?E]\<rparr>) rest"
    if "cmd req = 1" "71 \<le> n" "n < 4000 + 1" for req n rest
    using parse_lines_attribute_line [of req spec_decls "''errmsg''" "replicate n ?x" ?E rest] that
    by (simp add: spec_decls_keys max spec_decls_errmsg LF_def NUL_def)
  have frag: "parse_lines spec_decls ?req1 ?frag = Returns (1, ?req1\<lparr>attrs := attrs ?req1 @ [?F]\<rparr>)"
    using parse_lines_fragment [of ?frag spec_decls ?req1]
    by (simp add: max LF_def)
  have nonul1: "NUL \<notin> set ?c1" and nonul2: "NUL \<notin> set ?c2"
    by (simp_all add: NUL_def LF_def)
  have c0: "complete_attrs spec_decls (attrs ?req0)"
    by (simp add: complete_attrs_def request_init_def)
  have first: "parse_request spec_decls 12288 ?req0 ?c1 = Returns (1, ?req1\<lparr>attrs := attrs ?req1 @ [?F]\<rparr>)"
    unfolding parse_request_complete [OF c0 nonul1] cmdline frag ..
  have second: "parse_request spec_decls 12288 (?req1\<lparr>attrs := attrs ?req1 @ [?F]\<rparr>) ?c2 = Out_of_bounds"
    using nonul2 by (simp add: parse_request_def max Let_def)
  have feed: "feed spec_decls 12288 ?req0 [?c1, ?c2] = Out_of_bounds"
  proof -
    define c1 where "c1 = ?c1"
    define c2 where "c2 = ?c2"
    define reqF where "reqF = ?req1\<lparr>attrs := attrs ?req1 @ [?F]\<rparr>"
    have "parse_request spec_decls 12288 ?req0 c1 = Returns (1, reqF)"
      and "parse_request spec_decls 12288 reqF c2 = Out_of_bounds"
      unfolding c1_def c2_def reqF_def by (rule first, rule second)
    then have "feed spec_decls 12288 ?req0 [c1, c2] = Out_of_bounds"
      by simp
    then show ?thesis unfolding c1_def c2_def .
  qed
  have hr: "handle_request spec_decls close_when_done keep_open_on_error ?req0
              [Read_bytes ?c1, Read_bytes ?c2] = Some Out_of_bounds"
  proof -
    define c1 where "c1 = ?c1"
    define c2 where "c2 = ?c2"
    define reqF where "reqF = ?req1\<lparr>attrs := attrs ?req1 @ [?F]\<rparr>"
    have l: "\<not> length c1 > RECV_BUFSIZE spec_decls" "c1 \<noteq> []"
      "\<not> length c2 > RECV_BUFSIZE spec_decls" "c2 \<noteq> []"
      "RECV_BUFSIZE spec_decls + MAX_LINESIZE spec_decls = 12288"
      unfolding c1_def c2_def by (simp_all add: max)
    have "parse_request spec_decls 12288 ?req0 c1 = Returns (1, reqF)"
      and "parse_request spec_decls 12288 reqF c2 = Out_of_bounds"
      unfolding c1_def c2_def reqF_def by (rule first, rule second)
    then have "handle_request spec_decls close_when_done keep_open_on_error ?req0
              [Read_bytes c1, Read_bytes c2] = Some Out_of_bounds"
      using l by simp
    then show ?thesis unfolding c1_def c2_def .
  qed
  have join: "replicate 3000 ?x @ replicate 1000 ?x @ t = replicate 4000 ?x @ t" for t
  proof -
    have "replicate 4000 ?x = replicate 3000 ?x @ replicate 1000 ?x"
      by (simp add: replicate_add [symmetric])
    then show ?thesis by simp
  qed
  let ?l3 = "''errmsg'' @ CHR ''='' # replicate 3000 ?x @ LF # LF # []"
  let ?l2 = "''errmsg'' @ CHR ''='' # replicate 4000 ?x @ LF # ?l3"
  let ?l1 = "''errmsg'' @ CHR ''='' # replicate 4000 ?x @ LF # ?l2"
  let ?r2 = "?req1\<lparr>attrs := attrs ?req1 @ [?E]\<rparr>"
  let ?r3 = "?r2\<lparr>attrs := attrs ?r2 @ [?E]\<rparr>"
  let ?r4 = "?r3\<lparr>attrs := attrs ?r3 @ [?E]\<rparr>"
  have whole: "?c1 @ ?c2 = ''request'' @ CHR ''='' # ''1'' @ LF # ?l1"
    by (simp add: join)
  have nonul: "NUL \<notin> set (?c1 @ ?c2)" using nonul1 nonul2 by simp
  have "parse_request spec_decls 12288 ?req0 (?c1 @ ?c2) = parse_lines spec_decls ?req0 (?c1 @ ?c2)"
    using c0 nonul by (rule parse_request_complete)
  also have "\<dots> = parse_lines spec_decls ?req1 ?l1"
    by (simp only: whole cmdline)
  also have "\<dots> = parse_lines spec_decls ?r2 ?l2"
    by (rule errline) simp_all
  also have "\<dots> = parse_lines spec_decls ?r3 ?l3"
    by (rule errline) simp_all
  also have "\<dots> = parse_lines spec_decls ?r4 [LF]"
    by (rule errline) simp_all
  also have "\<dots> = Returns (0, ?r4)"
    by (rule parse_lines_blank) (simp add: max)
  also have "?r4 = ?req1\<lparr>attrs := [?E, ?E, ?E]\<rparr>"
    by (simp add: request_init_def)
  finally have one: "parse_request spec_decls 12288 ?req0 (?c1 @ ?c2) =
                     Returns (0, ?req1\<lparr>attrs := [?E, ?E, ?E]\<rparr>)" .
  from feed hr one show ?thesis by simp
qed

text \<open>
  Where the splice stays inside the array behind \<open>buf\<close>: in a stream without NUL
  bytes, a record of at least \<open>MAX_LINESIZE\<close> bytes that the
  parser reaches (the records before it are whole and accepted, and leave the request
  \<open>req1\<close>) makes the parse fail with \<open>E2BIG\<close>, however the stream is split into chunks.
  The array behind \<open>buf\<close> holds the stream and \<open>MAX_LINESIZE\<close> bytes more.
\<close>

lemma line_too_long_in_bounds:
  assumes "decls_ok d"
    and "complete_attrs d (attrs req)"
    and "cs \<noteq> []"
    and "NUL \<notin> set (concat cs)"
    and "MAX_LINESIZE d + length (concat cs) \<le> bufsize"
    and "concat cs = pre @ record @ post"
    and "parse_lines d req pre = Returns (ret, req1)"
    and "ret > 0"
    and "complete_attrs d (attrs req1)"
    and "LF \<notin> set record"
    and "length record \<ge> MAX_LINESIZE d"
    and "record \<noteq> []"
  shows "feed d bufsize req cs = Returns (- E2BIG, req1)"
proof -
  have nil: "parse_lines d req [] = Returns (1, req)" by (rule parse_lines_Nil)
  have "feed d bufsize req cs = parse_lines d req ([] @ concat cs)"
    using assms(3-5) by (intro feed_concat [OF assms(1,2) nil]) simp_all
  then have "feed d bufsize req cs = parse_lines d req (pre @ record @ post)"
    by (simp add: assms(6))
  also have "\<dots> = parse_request d bufsize req1 (record @ post)"
    using assms(4,5) unfolding assms(6)
    by (intro parse_request_continues [OF assms(1,2,7,8), symmetric]) auto
  also have "\<dots> = parse_lines d req1 (record @ post)"
    using assms(4,9) unfolding assms(6) by (intro parse_request_complete) auto
  also have "\<dots> = Returns (- E2BIG, req1)"
  proof -
    let ?b = "record @ post"
    let ?m = "if cmd req1 = WGKEY_UNKNOWN d then Some req1 else None"
    have len: "length ?b \<ge> MAX_LINESIZE d" using assms(11) by simp
    then have lim: "(if length ?b > MAX_LINESIZE d then MAX_LINESIZE d else length ?b) = MAX_LINESIZE d"
      by auto
    have "LF \<notin> set (take (MAX_LINESIZE d) ?b)"
      using assms(10,11) by (auto dest: in_set_takeD)
    then have "memchr ?b LF (MAX_LINESIZE d) = None" by (simp add: memchr_None_iff)
    then have "memchr ?b LF (if length ?b > MAX_LINESIZE d then MAX_LINESIZE d else length ?b) = None"
      unfolding lim .
    from parse_line_no_newline [OF this, of ?m] len
    have pl: "parse_line d ?b ?m = Returns (- E2BIG, None, ?m)" by simp
    have "?b \<noteq> []" using assms(12) by simp
    with pl show ?thesis
      by (simp add: parse_lines_unfold E2BIG_def)
  qed
  finally show ?thesis .
qed

lemma line_too_long_in_bounds_example:
  "decls_ok spec_decls
   \<and> complete_attrs spec_decls (attrs (request_init spec_decls))
   \<and> [''request=1'' @ [LF] @ replicate 3000 (CHR ''a''), replicate 1096 (CHR ''a'') @ [LF]] \<noteq> []
   \<and> NUL \<notin> set (concat [''request=1'' @ [LF] @ replicate 3000 (CHR ''a''),
                             replicate 1096 (CHR ''a'') @ [LF]])
   \<and> MAX_LINESIZE spec_decls
       + length (concat [''request=1'' @ [LF] @ replicate 3000 (CHR ''a''),
                          replicate 1096 (CHR ''a'') @ [LF]]) \<le> 12288
   \<and> concat [''request=1'' @ [LF] @ replicate 3000 (CHR ''a''), replicate 1096 (CHR ''a'') @ [LF]]
       = (''request=1'' @ [LF]) @ replicate 4096 (CHR ''a'') @ [LF]
   \<and> parse_lines spec_decls (request_init spec_decls) (''request=1'' @ [LF])
       = Returns (1, request_init spec_decls\<lparr>cmd := 1, version := 1\<rparr>)
   \<and> (0::int) < 1
   \<and> complete_attrs spec_decls (attrs (request_init spec_decls\<lparr>cmd := 1, version := 1\<rparr>))
   \<and> LF \<notin> set (replicate 4096 (CHR ''a''))
   \<and> MAX_LINESIZE spec_decls \<le> length (replicate 4096 (CHR ''a''))
   \<and> replicate 4096 (CHR ''a'') \<noteq> []
   \<and> feed spec_decls 12288 (request_init spec_decls)
        [''request=1'' @ [LF] @ replicate 3000 (CHR ''a''), replicate 1096 (CHR ''a'') @ [LF]]
      = Returns (- E2BIG, request_init spec_decls\<lparr>cmd := 1, version := 1\<rparr>)"
proof -
  let ?cs = "[''request=1'' @ [LF] @ replicate 3000 (CHR ''a''), replicate 1096 (CHR ''a'') @ [LF]]"
  let ?req1 = "request_init spec_decls\<lparr>cmd := 1, version := 1\<rparr>"
  have h1: "decls_ok spec_decls" by (simp add: decls_ok_def spec_decls_def)
  have h2: "complete_attrs spec_decls (attrs (request_init spec_decls))"
    by (simp add: complete_attrs_def request_init_def)
  have h3: "?cs \<noteq> []" by simp
  have h4: "NUL \<notin> set (concat ?cs)" by (simp add: NUL_def LF_def)
  have h5: "MAX_LINESIZE spec_decls + length (concat ?cs) \<le> 12288"
    by (simp add: spec_decls_def)
  have "replicate 3000 (CHR ''a'') @ replicate 1096 (CHR ''a'') = replicate 4096 (CHR ''a'')"
    by (simp add: replicate_add [symmetric])
  then have h6: "concat ?cs = (''request=1'' @ [LF]) @ replicate 4096 (CHR ''a'') @ [LF]"
    by simp
  have h7: "parse_lines spec_decls (request_init spec_decls) (''request=1'' @ [LF]) = Returns (1, ?req1)"
    by (simp add: eval_simps)
  have h8: "(0::int) < 1" by simp
  have h9: "complete_attrs spec_decls (attrs ?req1)"
    by (simp add: complete_attrs_def request_init_def)
  have h10: "LF \<notin> set (replicate 4096 (CHR ''a''))" by (simp add: LF_def)
  have h11: "MAX_LINESIZE spec_decls \<le> length (replicate 4096 (CHR ''a''))"
    by (simp add: spec_decls_def)
  have h12: "replicate 4096 (CHR ''a'') \<noteq> []" by simp
  from line_too_long_in_bounds [OF h1 h2 h3 h4 h5 h6 h7 h8 h9 h10 h11 h12]
    h1 h2 h3 h4 h5 h6 h7 h8 h9 h10 h11 h12
  show ?thesis by blast
qed

text \<open>
  A record of 4097 bytes that holds a NUL byte, given in one chunk, is rejected with
  \<open>EINVAL\<close> before any line is looked at; and a record of 4096 bytes after an empty
  line is never reached, the empty line ending the message.
\<close>

lemma line_too_long_not_reached:
  "parse_request spec_decls 12288 (request_init spec_decls)
     (replicate 4096 (CHR ''a'') @ [NUL, LF])
   = Returns (- EINVAL, request_init spec_decls)
   \<and> parse_request spec_decls 12288 (request_init spec_decls)
     (LF # replicate 4096 (CHR ''a'') @ [LF])
   = Returns (0, request_init spec_decls)
   \<and> - EINVAL \<noteq> - E2BIG \<and> 0 \<noteq> - E2BIG"
  by (simp add: parse_request_def parse_lines.simps parse_line_def memchr_Cons
      EINVAL_def E2BIG_def NUL_def LF_def request_init_def spec_decls_def)

text \<open>
  C6. A record of at least \<open>MAX_LINESIZE\<close> bytes is to fail with \<open>E2BIG\<close> however the
  stream is split, also when the record builds up through pending fragments. The code
  does not do so for every split, for the reason given at the request above: the move of
  the splice is \<open>len\<close> bytes long after \<open>len\<close> has grown by the fragment's length. A
  record of 12287 bytes without a newline, read as 4095 bytes and then 8192 bytes, makes
  the second call write 12287 bytes at offset 4095 of the 12288 bytes that
  \<open>handle_request\<close> has allocated, before any length is compared with \<open>MAX_LINESIZE\<close>.
  The same bytes in one chunk fail with \<open>E2BIG\<close>.
\<close>

theorem line_too_long_overflow:
  "feed spec_decls 12288 (request_init spec_decls)
     [replicate 4095 (CHR ''a''), replicate 8192 (CHR ''a'')]
   = Out_of_bounds
   \<and> handle_request spec_decls close_when_done keep_open_on_error (request_init spec_decls)
     [Read_bytes (replicate 4095 (CHR ''a'')), Read_bytes (replicate 8192 (CHR ''a''))]
   = Some Out_of_bounds
   \<and> feed spec_decls 12288 (request_init spec_decls)
     [replicate 4095 (CHR ''a'') @ replicate 8192 (CHR ''a'')]
   = Returns (- E2BIG, request_init spec_decls)"
proof -
  let ?a = "replicate 4095 (CHR ''a'')"
  let ?b = "replicate 8192 (CHR ''a'')"
  let ?req = "request_init spec_decls"
  let ?f = "\<lparr>key = WGKEY_INCOMPLETE spec_decls, len = length ?a, val = Fragment ?a\<rparr>"
  have max: "MAX_LINESIZE spec_decls = 4096" "RECV_BUFSIZE spec_decls = 8192"
    by (simp_all add: spec_decls_def)
  have "parse_lines spec_decls ?req ?a = Returns (1, ?req\<lparr>attrs := attrs ?req @ [?f]\<rparr>)"
    using parse_lines_fragment [of ?a spec_decls ?req] by (simp add: max LF_def)
  then have first: "parse_request spec_decls 12288 ?req ?a = Returns (1, ?req\<lparr>attrs := [?f]\<rparr>)"
    by (simp add: parse_request_def NUL_def request_init_def)
  have second: "parse_request spec_decls 12288 (?req\<lparr>attrs := [?f]\<rparr>) ?b = Out_of_bounds"
    by (simp add: parse_request_def NUL_def Let_def)
  from first second
  have feed: "feed spec_decls 12288 ?req [?a, ?b] = Out_of_bounds"
    by simp
  from first second
  have hr: "handle_request spec_decls close_when_done keep_open_on_error ?req
              [Read_bytes ?a, Read_bytes ?b] = Some Out_of_bounds"
    by (simp add: max)
  have "LF \<notin> set (take (MAX_LINESIZE spec_decls) (?a @ ?b))"
    by (auto simp: LF_def dest: in_set_takeD)
  then have "memchr (?a @ ?b) LF
      (if length (?a @ ?b) > MAX_LINESIZE spec_decls then MAX_LINESIZE spec_decls else length (?a @ ?b)) = None"
    by (simp add: memchr_None_iff max)
  from parse_line_no_newline [OF this, of "Some ?req"]
  have "parse_line spec_decls (?a @ ?b) (Some ?req) = Returns (- E2BIG, None, Some ?req)"
    by (simp add: max)
  then have "parse_lines spec_decls ?req (?a @ ?b) = Returns (- E2BIG, ?req)"
    by (simp add: parse_lines_unfold request_init_def E2BIG_def spec_decls_def)
  then have "parse_request spec_decls 12288 ?req (?a @ ?b) = Returns (- E2BIG, ?req)"
    by (simp add: parse_request_def NUL_def request_init_def)
  then have one: "feed spec_decls 12288 ?req [?a @ ?b] = Returns (- E2BIG, ?req)"
    by simp
  from feed hr one show ?thesis by simp
qed

section \<open>Properties of the connection driver\<close>

lemma handle_request_chunks:
  assumes "list_all (\<lambda>c. c \<noteq> [] \<and> length c \<le> RECV_BUFSIZE d) cs"
    and "feed d (RECV_BUFSIZE d + MAX_LINESIZE d) req cs = Returns (ret, req')"
    and "ret > 0"
  shows "handle_request d success error req (map Read_bytes cs @ rs) =
         handle_request d success error req' rs"
  using assms
proof (induction cs arbitrary: req)
  case Nil
  then show ?case by simp
next
  case (Cons c cs)
  show ?case
  proof (cases "parse_request d (RECV_BUFSIZE d + MAX_LINESIZE d) req c")
    case (Returns p)
    obtain r1 req1 where p: "p = (r1, req1)" by (cases p)
    show ?thesis
    proof (cases "cs = []")
      case True
      with Cons.prems Returns p show ?thesis by (auto split: if_splits)
    next
      case False
      with Cons.prems Returns p have pos: "r1 > 0"
        by (auto split: if_splits)
      with Cons.prems Returns p False
      have "feed d (RECV_BUFSIZE d + MAX_LINESIZE d) req1 cs = Returns (ret, req')" by simp
      with Cons.IH [of req1] Cons.prems
      have "handle_request d success error req1 (map Read_bytes cs @ rs) =
            handle_request d success error req' rs" by simp
      with Cons.prems Returns p pos show ?thesis by simp
    qed
  next
    case Aborted
    with Cons.prems show ?thesis by simp
  next
    case Out_of_bounds
    with Cons.prems show ?thesis by simp
  qed
qed

text \<open>
  C2. When \<open>read\<close> reports that the peer has closed (zero bytes) or fails with an error
  other than would-block, at the first call or after chunks that left the message
  incomplete, \<open>handle_request\<close> returns true and has invoked no callback.
\<close>

theorem handle_request_read_failure:
  assumes "list_all (\<lambda>c. c \<noteq> [] \<and> length c \<le> RECV_BUFSIZE d) cs"
    and "feed d (RECV_BUFSIZE d + MAX_LINESIZE d) req cs = Returns (ret, req')"
    and "ret > 0"
    and "r = Read_bytes [] \<or> (\<exists>e. r = Read_fail e \<and> e \<noteq> EWOULDBLOCK \<and> e \<noteq> EAGAIN)"
  shows "handle_request d success error req (map Read_bytes cs @ r # rs) =
         Some (Returns (True, req', No_callback))"
proof -
  have "handle_request d success error req (map Read_bytes cs @ r # rs) =
        handle_request d success error req' (r # rs)"
    using assms(1-3) by (rule handle_request_chunks)
  also have "\<dots> = Some (Returns (True, req', No_callback))"
    using assms(4) by auto
  finally show ?thesis .
qed

theorem handle_request_read_failure_witness:
  "list_all (\<lambda>c. c \<noteq> [] \<and> length c \<le> RECV_BUFSIZE spec_decls) [''request=1'' @ [LF]]
   \<and> feed spec_decls (RECV_BUFSIZE spec_decls + MAX_LINESIZE spec_decls) (request_init spec_decls)
        [''request=1'' @ [LF]]
      = Returns (1, request_init spec_decls\<lparr>cmd := 1, version := 1\<rparr>)
   \<and> (0::int) < 1
   \<and> handle_request spec_decls close_when_done keep_open_on_error (request_init spec_decls)
        (map Read_bytes [''request=1'' @ [LF]] @ Read_bytes [] # [])
      = Some (Returns (True, request_init spec_decls\<lparr>cmd := 1, version := 1\<rparr>, No_callback))"
proof -
  let ?cs = "[''request=1'' @ [LF]]"
  have h1: "list_all (\<lambda>c. c \<noteq> [] \<and> length c \<le> RECV_BUFSIZE spec_decls) ?cs"
    by (simp add: spec_decls_def)
  have h2: "feed spec_decls (RECV_BUFSIZE spec_decls + MAX_LINESIZE spec_decls)
              (request_init spec_decls) ?cs
            = Returns (1, request_init spec_decls\<lparr>cmd := 1, version := 1\<rparr>)"
    by (simp add: eval_simps)
  have h3: "(0::int) < 1" by simp
  have h4: "Read_bytes [] = Read_bytes [] \<or>
            (\<exists>e. Read_bytes [] = Read_fail e \<and> e \<noteq> EWOULDBLOCK \<and> e \<noteq> EAGAIN)" by simp
  from handle_request_read_failure [OF h1 h2 h3 h4, of close_when_done keep_open_on_error "[]"]
    h1 h2 h3
  show ?thesis by auto
qed

text \<open>The peer closes a new connection: the result is true and no callback has run.\<close>

theorem handle_request_read_failure_counterexample:
  "handle_request spec_decls close_when_done keep_open_on_error (request_init spec_decls)
     [Read_bytes []]
   = Some (Returns (True, request_init spec_decls, No_callback))"
  by simp





text \<open>
  A second buffer passed while a shorter block is pending is outside that use of
  \<open>send_message\<close>: the block is not reallocated and \<open>memmove\<close> writes past its end.
\<close>

lemma send_message_second_write_overflow:
  "send_message (request_init spec_decls\<lparr>buf := Some ''x'', buflen := 1\<rparr>) ''abc''
     [Written 1, Write_fail EAGAIN]
   = Some Out_of_bounds"
  by (simp add: send_message_def EAGAIN_def EWOULDBLOCK_def)

text \<open>
  C8. \<open>close_connection\<close> frees every attribute node and the pending block, and leaves
  the request with every field as before a connection: no command, version 0, descriptor
  -1, no pending block, length 0 and no attribute.
\<close>

theorem close_connection_resets:
  "close_connection d req = (request_init d, attrs req, buf req)"
proof -
  have "free_attrs xs = xs" for xs :: "wg_dynamic_attr list"
    by (induction xs) simp_all
  then show ?thesis
    by (simp add: close_connection_def request_init_def)
qed

section \<open>The marker of an incomplete line\<close>

lemma parse_lines_markers:
  assumes "decls_ok d"
    and "complete_attrs d (attrs req)"
    and "parse_lines d req bytes = Returns (ret, req')"
  shows "complete_attrs d (butlast (attrs req')) \<and> (ret \<le> 0 \<longrightarrow> complete_attrs d (attrs req'))"
  using assms(2,3)
proof (induction "length bytes" arbitrary: bytes req rule: less_induct)
  case less
  let ?m = "if cmd req = WGKEY_UNKNOWN d then Some req else None"
  let ?lim = "if length bytes > MAX_LINESIZE d then MAX_LINESIZE d else length bytes"
  have bl: "complete_attrs d (butlast (attrs req))"
    using less.prems(1) by (auto simp: complete_attrs_def list_all_iff dest: in_set_butlastD)
  show ?case
  proof (cases "bytes = []")
    case True
    with less.prems bl show ?thesis by (auto simp: parse_lines_Nil)
  next
    case False
    note ne = this
    show ?thesis
    proof (cases "memchr bytes LF ?lim")
      case None
      note pl = parse_line_no_newline [OF None, of ?m]
      show ?thesis
      proof (cases "length bytes \<ge> MAX_LINESIZE d")
        case True
        with pl ne less.prems have "req' = req"
          by (auto simp: parse_lines_unfold E2BIG_def split: if_splits)
        with less.prems(1) bl show ?thesis by simp
      next
        case False
        with pl ne less.prems(2) have "ret = 1"
          and "req' = req\<lparr>attrs := attrs req @
                 [\<lparr>key = WGKEY_INCOMPLETE d, len = length bytes, val = Fragment bytes\<rparr>]\<rparr>"
          by (auto simp: parse_lines_unfold parse_lines_Nil split: if_splits)
        with less.prems(1) show ?thesis by simp
      qed
    next
      case (Some k)
      then have k: "k < length bytes" by (simp add: memchr_less)
      show ?thesis
      proof (cases "parse_line d bytes ?m")
        case (Returns p)
        obtain r a ropt where p: "p = (r, a, ropt)" by (cases p)
        let ?r0 = "case ropt of Some r \<Rightarrow> r | None \<Rightarrow> req"
        have at: "attrs ?r0 = attrs req"
          using Returns p by (intro parse_line_attrs [of d bytes req r a]) simp
        show ?thesis
        proof (cases "r \<le> 0")
          case True
          with Returns p less.prems(2) ne have "req' = ?r0"
            by (simp add: parse_lines_unfold Let_def)
          with at less.prems(1) bl show ?thesis by simp
        next
          case False
          with Returns p Some
          have ret: "r = int (k + 1)"
            and typed: "\<And>x. a = Some x \<Longrightarrow> \<exists>kk str. parse_value d kk str = Returns (Some x)"
            using parse_line_newline [of bytes d k ?m r a ropt] by simp_all
          from ret have nr: "nat r = Suc k" by simp
          let ?req = "case a of None \<Rightarrow> ?r0 | Some x \<Rightarrow> ?r0\<lparr>attrs := attrs ?r0 @ [x]\<rparr>"
          have "key x \<noteq> WGKEY_INCOMPLETE d" if "a = Some x" for x
          proof -
            from typed [OF that] obtain kk str where "parse_value d kk str = Returns (Some x)"
              by blast
            from parse_value_key [OF this] assms(1) show ?thesis
              by (auto simp: decls_ok_def)
          qed
          with less.prems(1) at have ok: "complete_attrs d (attrs ?req)"
            by (cases a) (simp_all add: complete_attrs_def)
          have L: "parse_lines d req bytes = parse_lines d ?req (drop (k + 1) bytes)"
            using Returns p False ne
            by (simp add: parse_lines_unfold Let_def nr split: option.splits)
          have "length (drop (k + 1) bytes) < length bytes" using k by simp
          from less.hyps [OF this ok] L less.prems(2) show ?thesis by simp
        qed
      next
        case Aborted
        with less.prems(2) ne show ?thesis by (simp add: parse_lines_unfold)
      next
        case Out_of_bounds
        with less.prems(2) ne show ?thesis by (simp add: parse_lines_unfold)
      qed
    qed
  qed
qed

text \<open>
  C9. If at most the last attribute of the sequence is the marker of an incomplete line
  (as in a new request), then the same holds after every return of \<open>parse_request\<close>, and
  after the return value 0 (message complete) the sequence holds no marker at all.
\<close>

theorem parse_request_marker_last:
  assumes "decls_ok d"
    and "complete_attrs d (butlast (attrs req))"
    and "parse_request d bufsize req bytes = Returns (ret, req')"
  shows "complete_attrs d (butlast (attrs req')) \<and> (ret = 0 \<longrightarrow> complete_attrs d (attrs req'))"
proof (cases "NUL \<in> set bytes")
  case True
  with assms(3) have "req' = req" "ret = - EINVAL" by (simp_all add: parse_request_def)
  with assms(2) show ?thesis by (simp add: EINVAL_def)
next
  case False
  note nonul = this
  show ?thesis
  proof (cases "attrs req \<noteq> [] \<and> key (last (attrs req)) = WGKEY_INCOMPLETE d")
    case True
    let ?l = "last (attrs req)"
    from True nonul assms(3)
    have "parse_lines d (req\<lparr>attrs := butlast (attrs req)\<rparr>)
            (take (len ?l) (attr_bytes (val ?l)) @ bytes) = Returns (ret, req')"
      by (simp add: parse_request_def Let_def split: if_splits)
    from parse_lines_markers [OF assms(1) _ this] assms(2) show ?thesis by simp
  next
    case False
    with nonul assms(3) have pl: "parse_lines d req bytes = Returns (ret, req')"
      by (auto simp: parse_request_def)
    have "complete_attrs d (attrs req)"
    proof (cases "attrs req = []")
      case True
      then show ?thesis by (simp add: complete_attrs_def)
    next
      case ne: False
      then have "list_all (\<lambda>a. key a \<noteq> WGKEY_INCOMPLETE d) (attrs req) =
                 list_all (\<lambda>a. key a \<noteq> WGKEY_INCOMPLETE d) (butlast (attrs req) @ [last (attrs req)])"
        by simp
      moreover from False ne have "key (last (attrs req)) \<noteq> WGKEY_INCOMPLETE d" by simp
      ultimately show ?thesis
        using assms(2) unfolding complete_attrs_def by (simp only: list_all_append list.pred_inject) simp
    qed
    from parse_lines_markers [OF assms(1) this pl] show ?thesis by simp
  qed
qed

theorem parse_request_marker_last_witness:
  "decls_ok spec_decls
   \<and> complete_attrs spec_decls
        (butlast (attrs (request_init spec_decls
           \<lparr>attrs := [\<lparr>key = 3, len = 4, val = Fragment ''requ''\<rparr>]\<rparr>)))
   \<and> parse_request spec_decls 12288
        (request_init spec_decls\<lparr>attrs := [\<lparr>key = 3, len = 4, val = Fragment ''requ''\<rparr>]\<rparr>)
        (''est=1'' @ [LF, LF])
      = Returns (0, request_init spec_decls\<lparr>cmd := 1, version := 1\<rparr>)
   \<and> complete_attrs spec_decls (butlast (attrs (request_init spec_decls\<lparr>cmd := 1, version := 1\<rparr>)))
   \<and> complete_attrs spec_decls (attrs (request_init spec_decls\<lparr>cmd := 1, version := 1\<rparr>))"
proof -
  let ?req = "request_init spec_decls\<lparr>attrs := [\<lparr>key = 3, len = 4, val = Fragment ''requ''\<rparr>]\<rparr>"
  let ?req' = "request_init spec_decls\<lparr>cmd := 1, version := 1\<rparr>"
  have h1: "decls_ok spec_decls" by (simp add: decls_ok_def spec_decls_def)
  have h2: "complete_attrs spec_decls (butlast (attrs ?req))"
    by (simp add: complete_attrs_def request_init_def)
  have h3: "parse_request spec_decls 12288 ?req (''est=1'' @ [LF, LF]) = Returns (0, ?req')"
    by (simp add: eval_simps)
  from parse_request_marker_last [OF h1 h2 h3] h1 h2 h3 show ?thesis by simp
qed

section \<open>Lines of the form key=value\<close>

text \<open>
  C3. Once the command is set, a line whose key is not past \<open>WGKEY_ENDCMD\<close> is rejected
  with \<open>ENOENT\<close>, and so is a line with an unknown name: the two are rejected with the
  same code.
\<close>

theorem attribute_key_not_past_boundary:
  assumes "cmd req \<noteq> WGKEY_UNKNOWN d"
    and "complete_attrs d (attrs req)"
    and "NUL \<notin> set (name @ str @ rest)"
    and "CHR ''='' \<notin> set name"
    and "LF \<notin> set (name @ str)"
    and "length (name @ CHR ''='' # str) < MAX_LINESIZE d"
    and "parse_key d name \<le> WGKEY_ENDCMD d \<or> parse_key d name = WGKEY_UNKNOWN d"
  shows "parse_request d bufsize req (name @ CHR ''='' # str @ LF # rest) = Returns (- ENOENT, req)"
proof -
  let ?bytes = "name @ CHR ''='' # str @ LF # rest"
  have "NUL \<notin> set ?bytes" using assms(3) by (simp add: NUL_def LF_def)
  with assms(2) have "parse_request d bufsize req ?bytes = parse_lines d req ?bytes"
    by (rule parse_request_complete)
  moreover have "parse_line d ?bytes None = Returns (- ENOENT, None, None)"
    using assms(3,7) by (subst parse_line_key_value [OF assms(4,5) _ assms(6)]) (auto simp: Let_def)
  ultimately show ?thesis
    using assms(1) by (simp add: parse_lines_unfold ENOENT_def)
qed

theorem attribute_key_not_past_boundary_witness:
  "cmd (request_init spec_decls\<lparr>cmd := 1, version := 1\<rparr>) \<noteq> WGKEY_UNKNOWN spec_decls
   \<and> complete_attrs spec_decls (attrs (request_init spec_decls\<lparr>cmd := 1, version := 1\<rparr>))
   \<and> NUL \<notin> set (''request'' @ ''1'' @ [])
   \<and> CHR ''='' \<notin> set ''request''
   \<and> LF \<notin> set (''request'' @ ''1'')
   \<and> length (''request'' @ CHR ''='' # ''1'') < MAX_LINESIZE spec_decls
   \<and> parse_key spec_decls ''request'' \<le> WGKEY_ENDCMD spec_decls
   \<and> parse_request spec_decls 12288 (request_init spec_decls\<lparr>cmd := 1, version := 1\<rparr>)
        (''request'' @ CHR ''='' # ''1'' @ LF # [])
      = Returns (- ENOENT, request_init spec_decls\<lparr>cmd := 1, version := 1\<rparr>)"
proof -
  let ?req = "request_init spec_decls\<lparr>cmd := 1, version := 1\<rparr>"
  have h1: "cmd ?req \<noteq> WGKEY_UNKNOWN spec_decls" by (simp add: spec_decls_def)
  have h2: "complete_attrs spec_decls (attrs ?req)"
    by (simp add: complete_attrs_def request_init_def)
  have h3: "NUL \<notin> set (''request'' @ ''1'' @ [])" by (simp add: NUL_def)
  have h4: "CHR ''='' \<notin> set ''request''" by simp
  have h5: "LF \<notin> set (''request'' @ ''1'')" by (simp add: LF_def)
  have h6: "length (''request'' @ CHR ''='' # ''1'') < MAX_LINESIZE spec_decls"
    by (simp add: spec_decls_def)
  have h7: "parse_key spec_decls ''request'' \<le> WGKEY_ENDCMD spec_decls"
    by (simp add: parse_key_def spec_decls_def upt_rec)
  then have h7': "parse_key spec_decls ''request'' \<le> WGKEY_ENDCMD spec_decls
                  \<or> parse_key spec_decls ''request'' = WGKEY_UNKNOWN spec_decls" by simp
  from attribute_key_not_past_boundary [OF h1 h2 h3 h4 h5 h6 h7', of 12288]
    h1 h2 h3 h4 h5 h6 h7
  show ?thesis by blast
qed

text \<open>
  After the command is set, a line with the command key \<open>request\<close> and a line with an
  unknown name are both rejected with \<open>ENOENT\<close>.
\<close>

theorem attribute_key_not_past_boundary_counterexample:
  "parse_request spec_decls 12288 (request_init spec_decls\<lparr>cmd := 1, version := 1\<rparr>)
     (''request=1'' @ [LF])
   = Returns (- ENOENT, request_init spec_decls\<lparr>cmd := 1, version := 1\<rparr>)
   \<and> parse_request spec_decls 12288 (request_init spec_decls\<lparr>cmd := 1, version := 1\<rparr>)
     (''bogus=1'' @ [LF])
   = Returns (- ENOENT, request_init spec_decls\<lparr>cmd := 1, version := 1\<rparr>)"
  by (simp add: eval_simps)

text \<open>
  C10. An error does not roll the request back. When the lines before the failing one
  were accepted and left the request \<open>req1\<close>, \<open>parse_request\<close> returns the error with
  the attributes of \<open>req1\<close> still in the sequence. A command line with a known command
  and a version other than 1 is rejected with \<open>EPROTONOSUPPORT\<close> after \<open>cmd\<close> and
  \<open>version\<close> have been set to the parsed values.
\<close>

theorem parse_request_no_rollback:
  "(decls_ok d \<and> complete_attrs d (attrs req) \<and> NUL \<notin> set (pre @ rest)
      \<and> parse_lines d req pre = Returns (ret1, req1) \<and> ret1 > 0 \<and> complete_attrs d (attrs req1)
      \<and> rest \<noteq> []
      \<and> parse_line d rest (if cmd req1 = WGKEY_UNKNOWN d then Some req1 else None) = Returns (e, a, ropt)
      \<and> e < 0
    \<longrightarrow> (\<exists>req'. parse_request d bufsize req (pre @ rest) = Returns (e, req')
                \<and> attrs req' = attrs req1))
   \<and> (cmd r = WGKEY_UNKNOWN d \<and> complete_attrs d (attrs r)
       \<and> NUL \<notin> set (name @ str @ tail) \<and> CHR ''='' \<notin> set name \<and> LF \<notin> set (name @ str)
       \<and> length (name @ CHR ''='' # str) < MAX_LINESIZE d
       \<and> parse_key d name \<noteq> WGKEY_UNKNOWN d \<and> parse_key d name < WGKEY_ENDCMD d
       \<and> strtoumax str = (v, []) \<and> v \<le> UINT32_MAX \<and> (word_of_nat v :: 32 word) \<noteq> 1
    \<longrightarrow> parse_request d bufsize r (name @ CHR ''='' # str @ LF # tail)
          = Returns (- EPROTONOSUPPORT, r\<lparr>cmd := parse_key d name, version := word_of_nat v\<rparr>))"
proof (intro conjI impI)
  assume h: "decls_ok d \<and> complete_attrs d (attrs req) \<and> NUL \<notin> set (pre @ rest)
      \<and> parse_lines d req pre = Returns (ret1, req1) \<and> ret1 > 0 \<and> complete_attrs d (attrs req1)
      \<and> rest \<noteq> []
      \<and> parse_line d rest (if cmd req1 = WGKEY_UNKNOWN d then Some req1 else None) = Returns (e, a, ropt)
      \<and> e < 0"
  let ?r0 = "case ropt of Some r \<Rightarrow> r | None \<Rightarrow> req1"
  from h have nonul: "NUL \<notin> set rest" by simp
  have "parse_request d bufsize req (pre @ rest) = parse_lines d req (pre @ rest)"
    using h by (intro parse_request_complete) simp_all
  also have "\<dots> = parse_request d (MAX_LINESIZE d + length pre + length rest) req1 rest"
    using h nonul
    by (intro parse_request_continues [symmetric, where ret = ret1]) simp_all
  also have "\<dots> = parse_lines d req1 rest"
    using h nonul by (intro parse_request_complete) simp_all
  also have "\<dots> = Returns (e, ?r0)"
    using h by (simp add: parse_lines_unfold)
  finally have "parse_request d bufsize req (pre @ rest) = Returns (e, ?r0)" .
  moreover have "attrs ?r0 = attrs req1"
    using h by (intro parse_line_attrs [of d rest req1 e a]) simp
  ultimately show "\<exists>req'. parse_request d bufsize req (pre @ rest) = Returns (e, req')
                \<and> attrs req' = attrs req1"
    by blast
next
  assume h: "cmd r = WGKEY_UNKNOWN d \<and> complete_attrs d (attrs r)
       \<and> NUL \<notin> set (name @ str @ tail) \<and> CHR ''='' \<notin> set name \<and> LF \<notin> set (name @ str)
       \<and> length (name @ CHR ''='' # str) < MAX_LINESIZE d
       \<and> parse_key d name \<noteq> WGKEY_UNKNOWN d \<and> parse_key d name < WGKEY_ENDCMD d
       \<and> strtoumax str = (v, []) \<and> v \<le> UINT32_MAX \<and> (word_of_nat v :: 32 word) \<noteq> 1"
  let ?bytes = "name @ CHR ''='' # str @ LF # tail"
  have "NUL \<notin> set ?bytes" using h by (simp add: NUL_def LF_def)
  with h have "parse_request d bufsize r ?bytes = parse_lines d r ?bytes"
    by (intro parse_request_complete) simp_all
  moreover have "parse_line d ?bytes (Some r) =
      Returns (- EPROTONOSUPPORT, None, Some (r\<lparr>cmd := parse_key d name, version := word_of_nat v\<rparr>))"
    using h by (subst parse_line_key_value) (auto simp: Let_def)
  ultimately show "parse_request d bufsize r ?bytes
          = Returns (- EPROTONOSUPPORT, r\<lparr>cmd := parse_key d name, version := word_of_nat v\<rparr>)"
    using h by (simp add: parse_lines_unfold EPROTONOSUPPORT_def)
qed


theorem parse_request_no_rollback_witness:
  "decls_ok spec_decls
   \<and> complete_attrs spec_decls (attrs (request_init spec_decls))
   \<and> NUL \<notin> set ((''request=1'' @ [LF] @ ''ipv4=10.0.0.1/24'' @ [LF]) @ (''leasetime=-1'' @ [LF]))
   \<and> parse_lines spec_decls (request_init spec_decls) (''request=1'' @ [LF] @ ''ipv4=10.0.0.1/24'' @ [LF])
      = Returns (1, request_init spec_decls
          \<lparr>cmd := 1, version := 1,
            attrs := [\<lparr>key = 4, len = 20, val = Ip \<lparr>family = 2, ip = [10, 0, 0, 1], cidr = 24\<rparr>\<rparr>]\<rparr>)
   \<and> (0::int) < 1
   \<and> ''leasetime=-1'' @ [LF] \<noteq> []
   \<and> parse_line spec_decls (''leasetime=-1'' @ [LF]) None = Returns (- EINVAL, None, None)
   \<and> - EINVAL < 0
   \<and> parse_request spec_decls 12288 (request_init spec_decls)
        ((''request=1'' @ [LF] @ ''ipv4=10.0.0.1/24'' @ [LF]) @ (''leasetime=-1'' @ [LF]))
      = Returns (- EINVAL, request_init spec_decls
          \<lparr>cmd := 1, version := 1,
            attrs := [\<lparr>key = 4, len = 20, val = Ip \<lparr>family = 2, ip = [10, 0, 0, 1], cidr = 24\<rparr>\<rparr>]\<rparr>)
   \<and> cmd (request_init spec_decls) = WGKEY_UNKNOWN spec_decls
   \<and> NUL \<notin> set (''request'' @ ''2'' @ [])
   \<and> CHR ''='' \<notin> set ''request''
   \<and> LF \<notin> set (''request'' @ ''2'')
   \<and> length (''request'' @ CHR ''='' # ''2'') < MAX_LINESIZE spec_decls
   \<and> parse_key spec_decls ''request'' \<noteq> WGKEY_UNKNOWN spec_decls
   \<and> parse_key spec_decls ''request'' < WGKEY_ENDCMD spec_decls
   \<and> strtoumax ''2'' = (2, [])
   \<and> 2 \<le> UINT32_MAX
   \<and> (word_of_nat 2 :: 32 word) \<noteq> 1
   \<and> parse_request spec_decls 12288 (request_init spec_decls) (''request'' @ CHR ''='' # ''2'' @ LF # [])
      = Returns (- EPROTONOSUPPORT, request_init spec_decls\<lparr>cmd := 1, version := 2\<rparr>)"
proof -
  let ?req0 = "request_init spec_decls"
  let ?pre = "''request=1'' @ [LF] @ ''ipv4=10.0.0.1/24'' @ [LF]"
  let ?rest = "''leasetime=-1'' @ [LF]"
  let ?req1 = "request_init spec_decls
          \<lparr>cmd := 1, version := 1,
            attrs := [\<lparr>key = 4, len = 20, val = Ip \<lparr>family = 2, ip = [10, 0, 0, 1], cidr = 24\<rparr>\<rparr>]\<rparr>"
  have a1: "decls_ok spec_decls" by (simp add: decls_ok_def spec_decls_def)
  have a2: "complete_attrs spec_decls (attrs ?req0)"
    by (simp add: complete_attrs_def request_init_def)
  have a3: "NUL \<notin> set (?pre @ ?rest)" by (simp add: NUL_def LF_def)
  have a4: "parse_lines spec_decls ?req0 ?pre = Returns (1, ?req1)" by (simp add: eval_simps)
  have a5: "(0::int) < 1" by simp
  have a6: "complete_attrs spec_decls (attrs ?req1)"
    by (simp add: complete_attrs_def request_init_def spec_decls_def)
  have a7: "?rest \<noteq> []" by simp
  have a8: "parse_line spec_decls ?rest None = Returns (- EINVAL, None, None)"
    by (simp add: eval_simps)
  have a8': "parse_line spec_decls ?rest
               (if cmd ?req1 = WGKEY_UNKNOWN spec_decls then Some ?req1 else None)
             = Returns (- EINVAL, None, None)"
    using a8 by (simp add: spec_decls_def)
  have a9: "- EINVAL < 0" by (simp add: EINVAL_def)
  have b1: "cmd ?req0 = WGKEY_UNKNOWN spec_decls" by (simp add: request_init_def)
  have b2: "NUL \<notin> set (''request'' @ ''2'' @ [])" by (simp add: NUL_def)
  have b3: "CHR ''='' \<notin> set ''request''" by simp
  have b4: "LF \<notin> set (''request'' @ ''2'')" by (simp add: LF_def)
  have b5: "length (''request'' @ CHR ''='' # ''2'') < MAX_LINESIZE spec_decls"
    by (simp add: spec_decls_def)
  have b6: "parse_key spec_decls ''request'' \<noteq> WGKEY_UNKNOWN spec_decls"
    by (simp add: parse_key_def spec_decls_def upt_rec)
  have b7: "parse_key spec_decls ''request'' < WGKEY_ENDCMD spec_decls"
    by (simp add: parse_key_def spec_decls_def upt_rec)
  have b8: "strtoumax ''2'' = (2, [])" by (simp add: eval_simps)
  have b9: "2 \<le> UINT32_MAX" by (simp add: UINT32_MAX_def)
  have b10: "(word_of_nat 2 :: 32 word) \<noteq> 1" by simp
  note inst = parse_request_no_rollback [of spec_decls ?req0 ?pre ?rest 1 ?req1 "- EINVAL" None None
      12288 ?req0 "''request''" "''2''" "[]" 2]
  from inst a1 a2 a3 a4 a5 a6 a7 a8' a9
  obtain req' where r1: "parse_request spec_decls 12288 ?req0 (?pre @ ?rest) = Returns (- EINVAL, req')"
    and r2: "attrs req' = attrs ?req1"
    by blast
  have "parse_request spec_decls 12288 ?req0 (?pre @ ?rest) = Returns (- EINVAL, ?req1)"
    by (simp add: eval_simps)
  moreover from inst b1 a2 b2 b3 b4 b5 b6 b7 b8 b9 b10
  have "parse_request spec_decls 12288 ?req0 (''request'' @ CHR ''='' # ''2'' @ LF # [])
        = Returns (- EPROTONOSUPPORT, ?req0\<lparr>cmd := parse_key spec_decls ''request'', version := word_of_nat 2\<rparr>)"
    by blast
  then have "parse_request spec_decls 12288 ?req0 (''request'' @ CHR ''='' # ''2'' @ LF # [])
        = Returns (- EPROTONOSUPPORT, ?req0\<lparr>cmd := 1, version := 2\<rparr>)"
    by (simp add: parse_key_def spec_decls_def upt_rec)
  ultimately show ?thesis
    using a1 a2 a3 a4 a5 a7 a8 a9 b1 b2 b3 b4 b5 b6 b7 b8 b9 b10 by blast
qed

section \<open>Properties of the value decoder\<close>

lemma isdigit_not_isspace: "isdigit c \<Longrightarrow> \<not> isspace c"
  by (auto simp: isdigit_def isspace_def)

lemma isdigit_not_sign: "isdigit c \<Longrightarrow> c \<noteq> CHR ''-'' \<and> c \<noteq> CHR ''+''"
  by (auto simp: isdigit_def)

lemma strtoumax_numeric:
  assumes "numeric_text ws sg ds"
  shows "strtoumax (ws @ sg @ ds) = (converted sg ds, [])"
proof -
  from assms have ws: "\<And>x. x \<in> set ws \<Longrightarrow> isspace x" and ds: "ds \<noteq> []" "\<And>x. x \<in> set ds \<Longrightarrow> isdigit x"
    and sg: "sg = [] \<or> sg = ''+'' \<or> sg = ''-''"
    by (auto simp: numeric_text_def list_all_iff)
  from ds obtain c cs where dsc: "ds = c # cs" by (cases ds) auto
  with ds have c: "isdigit c" by simp
  have tw: "takeWhile isdigit ds = ds" "dropWhile isdigit ds = []"
    using ds(2) by (simp_all add: takeWhile_eq_all_conv)
  have "\<not> isspace (hd (sg @ ds))"
    using sg
  proof (elim disjE)
    assume "sg = []"
    then show ?thesis using isdigit_not_isspace [OF c] by (simp add: dsc)
  next
    assume "sg = ''+''"
    then show ?thesis by (simp add: isspace_def)
  next
    assume "sg = ''-''"
    then show ?thesis by (simp add: isspace_def)
  qed
  moreover have "sg @ ds \<noteq> []" using ds by simp
  ultimately have "dropWhile isspace (sg @ ds) = sg @ ds"
    by (cases "sg @ ds") auto
  then have s: "dropWhile isspace (ws @ sg @ ds) = sg @ ds"
    using ws by (simp add: dropWhile_append2)
  have hd_ds: "hd ds \<noteq> CHR ''-''" "hd ds \<noteq> CHR ''+''"
    using isdigit_not_sign [OF c] dsc by simp_all
  from sg show ?thesis
  proof (elim disjE)
    assume e: "sg = []"
    from s have s': "dropWhile isspace (ws @ [] @ ds) = ds" unfolding e by simp
    show ?thesis
      unfolding e
      apply (simp only: strtoumax_def Let_def s')
      apply (simp add: tw hd_ds ds(1) converted_def)
      done
  next
    assume e: "sg = ''+''"
    from s have s': "dropWhile isspace (ws @ ''+'' @ ds) = CHR ''+'' # ds" unfolding e by simp
    show ?thesis
      unfolding e
      apply (simp only: strtoumax_def Let_def s')
      apply (simp add: tw ds(1) converted_def)
      done
  next
    assume e: "sg = ''-''"
    from s have s': "dropWhile isspace (ws @ ''-'' @ ds) = CHR ''-'' # ds" unfolding e by simp
    show ?thesis
      unfolding e
      apply (simp only: strtoumax_def Let_def s')
      apply (simp add: tw ds(1) converted_def)
      done
  qed
qed

lemma strtoumax_whole:
  assumes "strtoumax str = (v, [])" and "str \<noteq> []"
  shows "\<exists>ws sg ds. str = ws @ sg @ ds \<and> numeric_text ws sg ds \<and> v = converted sg ds"
proof -
  let ?ws = "takeWhile isspace str"
  let ?s = "dropWhile isspace str"
  let ?sign = "?s \<noteq> [] \<and> (hd ?s = CHR ''-'' \<or> hd ?s = CHR ''+'')"
  let ?sg = "if ?sign then [hd ?s] else []"
  let ?t = "if ?sign then tl ?s else ?s"
  let ?ds = "takeWhile isdigit ?t"
  have nonempty: "?ds \<noteq> []"
    using assms by (auto simp: strtoumax_def Let_def split: if_splits)
  have "dropWhile isdigit ?t = []"
    using assms nonempty by (auto simp: strtoumax_def Let_def split: if_splits)
  then have all: "\<And>x. x \<in> set ?t \<Longrightarrow> isdigit x"
    by (metis dropWhile_eq_Nil_conv)
  then have t: "?ds = ?t" by (simp add: takeWhile_eq_all_conv)
  have s: "?sg @ ?t = ?s"
    by (cases "?s") auto
  have split: "str = ?ws @ ?sg @ ?t"
    by (subst s) simp
  have ws: "list_all isspace ?ws"
    by (auto simp: list_all_iff dest: set_takeWhileD)
  have sgok: "?sg = [] \<or> ?sg = ''+'' \<or> ?sg = ''-''"
    by auto
  have tne: "?t \<noteq> []"
    using nonempty unfolding t .
  have digits: "list_all isdigit ?t"
    unfolding list_all_iff using all by blast
  have num: "numeric_text ?ws ?sg ?t"
    unfolding numeric_text_def using ws sgok tne digits by blast
  have neg: "(?s \<noteq> [] \<and> hd ?s = CHR ''-'') = (?sg = ''-'')"
    by auto
  have "strtoumax str =
          (if dec_val ?ds > UINTMAX_MAX then (UINTMAX_MAX, dropWhile isdigit ?t)
           else if ?s \<noteq> [] \<and> hd ?s = CHR ''-'' then ((2 ^ 64 - dec_val ?ds) mod 2 ^ 64, dropWhile isdigit ?t)
           else (dec_val ?ds, dropWhile isdigit ?t))"
    using nonempty by (simp add: strtoumax_def Let_def)
  then have "strtoumax str = (converted ?sg ?t, dropWhile isdigit ?t)"
    unfolding neg t converted_def by (simp split: if_splits)
  with assms(1) have "v = converted ?sg ?t" by simp
  with split num show ?thesis by blast
qed


lemma parse_value_uint32_eq:
  assumes "decls_ok d"
    and "k = WGKEY_LEASESTART d \<or> k = WGKEY_LEASETIME d \<or> k = WGKEY_ERRNO d"
  shows "parse_value d k str =
     (case strtoumax str of
        (uresult, endptr) \<Rightarrow>
          if uresult > UINT32_MAX \<or> endptr \<noteq> [] then Returns None
          else Returns (Some \<lparr>key = k, len = 4, val = Uint32 (word_of_nat uresult)\<rparr>))"
  using assms by (auto simp: parse_value_def decls_ok_def)

text \<open>
  C4. Under the keys of the lease start, the lease time and the error number, a value that
  is not empty is decoded exactly when it consists of optional white space, an optional
  sign and at least one decimal digit, with nothing after them, and the value that
  \<open>strtoumax\<close> returns for it is at most \<open>UINT32_MAX\<close>; the attribute holds that value.
  Every other value that is not empty makes \<open>parse_value\<close> return a null pointer, which
  \<open>parse_line\<close> reports as \<open>EINVAL\<close>.
\<close>

theorem parse_value_uint32:
  assumes "decls_ok d"
    and "k = WGKEY_LEASESTART d \<or> k = WGKEY_LEASETIME d \<or> k = WGKEY_ERRNO d"
    and "str \<noteq> []"
  shows "(\<forall>ws sg ds. str = ws @ sg @ ds \<and> numeric_text ws sg ds \<and> converted sg ds \<le> UINT32_MAX
            \<longrightarrow> parse_value d k str =
                Returns (Some \<lparr>key = k, len = 4, val = Uint32 (word_of_nat (converted sg ds))\<rparr>))
       \<and> ((\<nexists>ws sg ds. str = ws @ sg @ ds \<and> numeric_text ws sg ds \<and> converted sg ds \<le> UINT32_MAX)
            \<longrightarrow> parse_value d k str = Returns None)"
proof (intro conjI allI impI)
  fix ws sg ds
  assume h: "str = ws @ sg @ ds \<and> numeric_text ws sg ds \<and> converted sg ds \<le> UINT32_MAX"
  then have "strtoumax str = (converted sg ds, [])" by (simp add: strtoumax_numeric)
  with h show "parse_value d k str =
      Returns (Some \<lparr>key = k, len = 4, val = Uint32 (word_of_nat (converted sg ds))\<rparr>)"
    by (simp add: parse_value_uint32_eq [OF assms(1,2)])
next
  assume no: "\<nexists>ws sg ds. str = ws @ sg @ ds \<and> numeric_text ws sg ds \<and> converted sg ds \<le> UINT32_MAX"
  obtain v endptr where st: "strtoumax str = (v, endptr)" by (cases "strtoumax str")
  have "v > UINT32_MAX \<or> endptr \<noteq> []"
  proof (rule ccontr)
    assume "\<not> (v > UINT32_MAX \<or> endptr \<noteq> [])"
    then have v: "v \<le> UINT32_MAX" and e: "endptr = []" by auto
    from strtoumax_whole [OF st [unfolded e] assms(3)] v no show False by blast
  qed
  with st show "parse_value d k str = Returns None"
    by (auto simp: parse_value_uint32_eq [OF assms(1,2)])
qed


theorem parse_value_uint32_witness:
  "decls_ok spec_decls
   \<and> (7 = WGKEY_LEASESTART spec_decls \<or> 7 = WGKEY_LEASETIME spec_decls \<or> 7 = WGKEY_ERRNO spec_decls)
   \<and> ''120'' \<noteq> []
   \<and> ''120'' = [] @ [] @ ''120'' \<and> numeric_text [] [] ''120'' \<and> converted [] ''120'' \<le> UINT32_MAX
   \<and> parse_value spec_decls 7 ''120'' = Returns (Some \<lparr>key = 7, len = 4, val = Uint32 120\<rparr>)
   \<and> ''-1'' \<noteq> []
   \<and> (\<nexists>ws sg ds. ''-1'' = ws @ sg @ ds \<and> numeric_text ws sg ds \<and> converted sg ds \<le> UINT32_MAX)
   \<and> parse_value spec_decls 7 ''-1'' = Returns None"
proof -
  have h1: "decls_ok spec_decls" by (simp add: decls_ok_def spec_decls_def)
  have h2: "7 = WGKEY_LEASESTART spec_decls \<or> 7 = WGKEY_LEASETIME spec_decls
            \<or> 7 = WGKEY_ERRNO spec_decls"
    by (simp add: spec_decls_def)
  have h3: "''120'' \<noteq> []" by simp
  have h4: "''120'' = [] @ [] @ ''120''" by simp
  have h5: "numeric_text [] [] ''120''" by (simp add: numeric_text_def isdigit_def)
  have h6: "converted [] ''120'' \<le> UINT32_MAX"
    by (simp add: converted_def dec_val_def digit_val_def UINTMAX_MAX_def UINT32_MAX_def)
  have v: "converted [] ''120'' = 120"
    by (simp add: converted_def dec_val_def digit_val_def UINTMAX_MAX_def)
  from parse_value_uint32 [OF h1 h2 h3] h4 h5 h6
  have "parse_value spec_decls 7 ''120'' =
        Returns (Some \<lparr>key = 7, len = 4, val = Uint32 (word_of_nat (converted [] ''120''))\<rparr>)"
    by blast
  then have r1: "parse_value spec_decls 7 ''120'' = Returns (Some \<lparr>key = 7, len = 4, val = Uint32 120\<rparr>)"
    by (simp add: v)
  have g3: "''-1'' \<noteq> []" by simp
  have g4: "\<nexists>ws sg ds. ''-1'' = ws @ sg @ ds \<and> numeric_text ws sg ds \<and> converted sg ds \<le> UINT32_MAX"
  proof
    assume "\<exists>ws sg ds. ''-1'' = ws @ sg @ ds \<and> numeric_text ws sg ds \<and> converted sg ds \<le> UINT32_MAX"
    then obtain ws sg ds where e: "''-1'' = ws @ sg @ ds" and n: "numeric_text ws sg ds"
      and c: "converted sg ds \<le> UINT32_MAX" by blast
    from strtoumax_numeric [OF n] e have "strtoumax ''-1'' = (converted sg ds, [])" by simp
    moreover have "strtoumax ''-1'' = (18446744073709551615, [])"
      by (simp add: strtoumax_def isspace_def isdigit_def dec_val_def digit_val_def UINTMAX_MAX_def Let_def)
    ultimately show False using c by (simp add: UINT32_MAX_def)
  qed
  from parse_value_uint32 [OF h1 h2 g3] g4
  have r2: "parse_value spec_decls 7 ''-1'' = Returns None" by blast
  from h1 h2 h3 h4 h5 h6 r1 g3 g4 r2 show ?thesis by blast
qed

text \<open>A value with a plus sign is decoded.\<close>

theorem parse_value_uint32_counterexample:
  "parse_value spec_decls 7 ''+5'' = Returns (Some \<lparr>key = 7, len = 4, val = Uint32 5\<rparr>)"
  by (simp add: eval_simps)

lemma parse_ip_cidr_empty:
  "parse_ip_cidr d ipv [] =
     Some (ipv\<lparr>ip := replicate (if family ipv = AF_INET then 4 else 16) 0, cidr := 0\<rparr>)"
  by (simp add: parse_ip_cidr_def)

lemma parse_ip_cidr_no_slash:
  assumes "str \<noteq> []" and "CHR ''/'' \<notin> set str"
  shows "parse_ip_cidr d ipv str = None"
proof -
  have "memchr str (CHR ''/'') (length str) = None"
    using assms(2) by (simp add: memchr_None_iff)
  with assms(1) show ?thesis by (simp add: parse_ip_cidr_def)
qed

lemma parse_ip_cidr_slash:
  assumes "CHR ''/'' \<notin> set a"
  shows "parse_ip_cidr d ipv (a @ CHR ''/'' # sfx) =
     (case inet_pton d (family ipv) a of
        None \<Rightarrow> None
      | Some bytes \<Rightarrow>
          (case strtoumax sfx of
             (res, endptr) \<Rightarrow>
               if res > UINT8_MAX \<or> endptr \<noteq> [] \<or> sfx = endptr then None
               else Some (ipv\<lparr>ip := bytes, cidr := word_of_nat res\<rparr>)))"
proof -
  let ?str = "a @ CHR ''/'' # sfx"
  have A: "memchr ?str (CHR ''/'') (length ?str) = Some (length a)"
    using assms by (simp only: memchr_Some_iff) simp
  have B: "take (length a) ?str = a" "drop (length a + 1) ?str = sfx" by simp_all
  have C: "?str \<noteq> []" by simp
  show ?thesis
    by (simp only: parse_ip_cidr_def A B C if_False option.case)
qed

text \<open>
  C5. Under the two keys of an address with prefix length: the empty value is decoded to
  the zero address with prefix length 0; a value without a slash that is not empty is
  rejected; a value \<open>a/sfx\<close>, \<open>a\<close> being free of slashes, is decoded exactly when
  \<open>inet_pton\<close> accepts \<open>a\<close> for the family of the key and \<open>sfx\<close> consists of optional white
  space, an optional sign and at least one decimal digit for which \<open>strtoumax\<close> returns
  at most 255.
\<close>

theorem parse_value_cidr:
  assumes "decls_ok d"
    and "(k = WGKEY_IPV4 d \<and> fam = AF_INET \<and> n = 4) \<or> (k = WGKEY_IPV6 d \<and> fam = AF_INET6 \<and> n = 16)"
  shows "parse_value d k [] =
           Returns (Some \<lparr>key = k, len = sizeof_wg_combined_ip d,
                           val = Ip \<lparr>family = fam, ip = replicate n 0, cidr = 0\<rparr>\<rparr>)
       \<and> (str \<noteq> [] \<and> CHR ''/'' \<notin> set str \<longrightarrow> parse_value d k str = Returns None)
       \<and> (CHR ''/'' \<notin> set a \<and> inet_pton d fam a = None
            \<longrightarrow> parse_value d k (a @ CHR ''/'' # sfx) = Returns None)
       \<and> (\<forall>bytes ws sg ds.
             CHR ''/'' \<notin> set a \<and> inet_pton d fam a = Some bytes
             \<and> sfx = ws @ sg @ ds \<and> numeric_text ws sg ds \<and> converted sg ds \<le> UINT8_MAX
            \<longrightarrow> parse_value d k (a @ CHR ''/'' # sfx) =
                Returns (Some \<lparr>key = k, len = sizeof_wg_combined_ip d,
                                val = Ip \<lparr>family = fam, ip = bytes,
                                          cidr = word_of_nat (converted sg ds)\<rparr>\<rparr>))
       \<and> (CHR ''/'' \<notin> set a
           \<and> (\<nexists>ws sg ds. sfx = ws @ sg @ ds \<and> numeric_text ws sg ds \<and> converted sg ds \<le> UINT8_MAX)
            \<longrightarrow> parse_value d k (a @ CHR ''/'' # sfx) = Returns None)"
proof -
  let ?ipv = "\<lparr>family = fam, ip = replicate 16 0, cidr = 0\<rparr>"
  have pv: "parse_value d k s =
      (case parse_ip_cidr d ?ipv s of
         None \<Rightarrow> Returns None
       | Some i \<Rightarrow> Returns (Some \<lparr>key = k, len = sizeof_wg_combined_ip d, val = Ip i\<rparr>))" for s
    using assms by (auto simp: parse_value_def decls_ok_def)
  have n: "(if family ?ipv = AF_INET then 4 else 16) = n"
    using assms(2) by (auto simp: AF_INET_def AF_INET6_def)
  have c1: "parse_value d k [] =
           Returns (Some \<lparr>key = k, len = sizeof_wg_combined_ip d,
                           val = Ip \<lparr>family = fam, ip = replicate n 0, cidr = 0\<rparr>\<rparr>)"
    unfolding pv parse_ip_cidr_empty n by simp
  have c2: "parse_value d k str = Returns None" if "str \<noteq> [] \<and> CHR ''/'' \<notin> set str"
    using that by (simp add: pv parse_ip_cidr_no_slash)
  have c3: "parse_value d k (a @ CHR ''/'' # sfx) = Returns None"
    if "CHR ''/'' \<notin> set a \<and> inet_pton d fam a = None"
    using that by (simp add: pv parse_ip_cidr_slash)
  have c4: "parse_value d k (a @ CHR ''/'' # sfx) =
                Returns (Some \<lparr>key = k, len = sizeof_wg_combined_ip d,
                                val = Ip \<lparr>family = fam, ip = bytes,
                                          cidr = word_of_nat (converted sg ds)\<rparr>\<rparr>)"
    if h: "CHR ''/'' \<notin> set a \<and> inet_pton d fam a = Some bytes
             \<and> sfx = ws @ sg @ ds \<and> numeric_text ws sg ds \<and> converted sg ds \<le> UINT8_MAX"
    for bytes ws sg ds
  proof -
    from h have st: "strtoumax sfx = (converted sg ds, [])" by (simp add: strtoumax_numeric)
    from h have "sfx \<noteq> []" by (auto simp: numeric_text_def)
    with h st show ?thesis by (simp add: pv parse_ip_cidr_slash)
  qed
  have c5: "parse_value d k (a @ CHR ''/'' # sfx) = Returns None"
    if h: "CHR ''/'' \<notin> set a
           \<and> (\<nexists>ws sg ds. sfx = ws @ sg @ ds \<and> numeric_text ws sg ds \<and> converted sg ds \<le> UINT8_MAX)"
  proof -
    obtain v endptr where st: "strtoumax sfx = (v, endptr)" by (cases "strtoumax sfx")
    have "v > UINT8_MAX \<or> endptr \<noteq> [] \<or> sfx = endptr"
    proof (rule ccontr)
      assume "\<not> (v > UINT8_MAX \<or> endptr \<noteq> [] \<or> sfx = endptr)"
      then have v: "v \<le> UINT8_MAX" and e: "endptr = []" and ne: "sfx \<noteq> []" by auto
      from strtoumax_whole [OF st [unfolded e] ne] v h show False by blast
    qed
    with h st show ?thesis
      by (auto simp: pv parse_ip_cidr_slash split: option.splits)
  qed
  from c1 c2 c3 c4 c5 show ?thesis by blast
qed


theorem parse_value_cidr_witness:
  "decls_ok spec_decls
   \<and> ((4 = WGKEY_IPV4 spec_decls \<and> 2 = AF_INET \<and> (4::nat) = 4)
       \<or> (4 = WGKEY_IPV6 spec_decls \<and> 2 = AF_INET6 \<and> (4::nat) = 16))
   \<and> parse_value spec_decls 4 [] =
       Returns (Some \<lparr>key = 4, len = 20, val = Ip \<lparr>family = 2, ip = [0, 0, 0, 0], cidr = 0\<rparr>\<rparr>)
   \<and> ''10.0.0.1'' \<noteq> [] \<and> CHR ''/'' \<notin> set ''10.0.0.1''
   \<and> parse_value spec_decls 4 ''10.0.0.1'' = Returns None
   \<and> inet_pton spec_decls 2 ''10.0.0.1'' = Some [10, 0, 0, 1]
   \<and> ''24'' = [] @ [] @ ''24'' \<and> numeric_text [] [] ''24'' \<and> converted [] ''24'' \<le> UINT8_MAX
   \<and> parse_value spec_decls 4 (''10.0.0.1'' @ CHR ''/'' # ''24'') =
       Returns (Some \<lparr>key = 4, len = 20, val = Ip \<lparr>family = 2, ip = [10, 0, 0, 1], cidr = 24\<rparr>\<rparr>)
   \<and> (\<nexists>ws sg ds. ''999'' = ws @ sg @ ds \<and> numeric_text ws sg ds \<and> converted sg ds \<le> UINT8_MAX)
   \<and> parse_value spec_decls 4 (''10.0.0.1'' @ CHR ''/'' # ''999'') = Returns None"
proof -
  have h1: "decls_ok spec_decls" by (simp add: decls_ok_def spec_decls_def)
  have h2: "(4 = WGKEY_IPV4 spec_decls \<and> 2 = AF_INET \<and> (4::nat) = 4)
            \<or> (4 = WGKEY_IPV6 spec_decls \<and> 2 = AF_INET6 \<and> (4::nat) = 16)"
    by (simp add: spec_decls_def AF_INET_def)
  note inst = parse_value_cidr [OF h1 h2]
  from inst [of "[]" "[]" "[]"]
  have "parse_value spec_decls 4 [] =
       Returns (Some \<lparr>key = 4, len = sizeof_wg_combined_ip spec_decls,
                       val = Ip \<lparr>family = 2, ip = replicate 4 0, cidr = 0\<rparr>\<rparr>)"
    by blast
  then have r1: "parse_value spec_decls 4 [] =
       Returns (Some \<lparr>key = 4, len = 20, val = Ip \<lparr>family = 2, ip = [0, 0, 0, 0], cidr = 0\<rparr>\<rparr>)"
    by (simp add: spec_decls_def numeral_eq_Suc)
  have a1: "''10.0.0.1'' \<noteq> []" "CHR ''/'' \<notin> set ''10.0.0.1''" by simp_all
  from inst [of "''10.0.0.1''" "[]" "[]"] a1
  have r2: "parse_value spec_decls 4 ''10.0.0.1'' = Returns None" by blast
  have p: "inet_pton spec_decls 2 ''10.0.0.1'' = Some [10, 0, 0, 1]"
    by (simp add: spec_decls_def inet_pton_ipv4_def octet_def AF_INET_def isdigit_def
        dec_val_def digit_val_def)
  have b1: "''24'' = [] @ [] @ ''24''" by simp
  have b2: "numeric_text [] [] ''24''" by (simp add: numeric_text_def isdigit_def)
  have b3: "converted [] ''24'' \<le> UINT8_MAX"
    by (simp add: converted_def dec_val_def digit_val_def UINTMAX_MAX_def UINT8_MAX_def)
  have v: "converted [] ''24'' = 24"
    by (simp add: converted_def dec_val_def digit_val_def UINTMAX_MAX_def)
  from inst [of "[]" "''10.0.0.1''" "''24''"] a1(2) p b1 b2 b3
  have "parse_value spec_decls 4 (''10.0.0.1'' @ CHR ''/'' # ''24'') =
       Returns (Some \<lparr>key = 4, len = sizeof_wg_combined_ip spec_decls,
                       val = Ip \<lparr>family = 2, ip = [10, 0, 0, 1],
                                 cidr = word_of_nat (converted [] ''24'')\<rparr>\<rparr>)"
    by blast
  then have r3: "parse_value spec_decls 4 (''10.0.0.1'' @ CHR ''/'' # ''24'') =
       Returns (Some \<lparr>key = 4, len = 20, val = Ip \<lparr>family = 2, ip = [10, 0, 0, 1], cidr = 24\<rparr>\<rparr>)"
    by (simp add: v spec_decls_def)
  have c1: "\<nexists>ws sg ds. ''999'' = ws @ sg @ ds \<and> numeric_text ws sg ds \<and> converted sg ds \<le> UINT8_MAX"
  proof
    assume "\<exists>ws sg ds. ''999'' = ws @ sg @ ds \<and> numeric_text ws sg ds \<and> converted sg ds \<le> UINT8_MAX"
    then obtain ws sg ds where e: "''999'' = ws @ sg @ ds" and n: "numeric_text ws sg ds"
      and c: "converted sg ds \<le> UINT8_MAX" by blast
    from strtoumax_numeric [OF n] e have "strtoumax ''999'' = (converted sg ds, [])" by simp
    moreover have "strtoumax ''999'' = (999, [])"
      by (simp add: strtoumax_def isspace_def isdigit_def dec_val_def digit_val_def UINTMAX_MAX_def Let_def)
    ultimately show False using c by (simp add: UINT8_MAX_def)
  qed
  from inst [of "[]" "''10.0.0.1''" "''999''"] a1(2) c1
  have r4: "parse_value spec_decls 4 (''10.0.0.1'' @ CHR ''/'' # ''999'') = Returns None" by blast
  from h1 h2 r1 a1 r2 p b1 b2 b3 r3 c1 r4 show ?thesis by blast
qed

text \<open>A prefix length with a minus sign is decoded.\<close>

theorem parse_value_cidr_counterexample:
  "parse_value spec_decls 4 ''10.0.0.1/-0'' =
     Returns (Some \<lparr>key = 4, len = 20, val = Ip \<lparr>family = 2, ip = [10, 0, 0, 1], cidr = 0\<rparr>\<rparr>)"
  by (simp add: eval_simps)

end
